theory Spec2Isabelle
  imports Complex_Main "HOL-Library.Multiset"
begin

section \<open>Fixation distance pipeline (building\_distance.py, outliers.py)\<close>

text \<open>
  Both scripts run the same pipeline: read the building registry from a KMZ archive, then
  for each of the 15 session pairs load the GPS trajectory and the fixation table, match
  every fixation to the trajectory row closest in time and append one result row.
  outliers.py carries two more columns (\<open>frame_nr\<close>, \<open>session\<close>) and ends with the
  IQR outlier filter; it is the script embedded here, and building\_distance.py is the
  same pipeline without those two columns and without the filter.

  Conventions of the embedding.
  \<^item> Timestamps are int64 counts of nanoseconds since the epoch, held as \<open>int\<close>; a
    timestamp that \<open>pd.to_datetime(..., errors='coerce')\<close> could not read (NaT) is \<open>None\<close>.
    Where pandas computes on them in int64, the range check is written out. Both
    timestamp columns are timezone-naive.
  \<^item> Floating-point values are the float64 values, held as the \<open>real\<close> numbers they
    denote; a missing cell (NaN) is \<open>None\<close>. Where the scripts or numpy compute on them,
    every operation rounds its exact result to float64 (\<open>round_double\<close>); infinities,
    NaN results and subnormal numbers are not modelled.
  \<^item> Text is ASCII, a \<open>string\<close>.
  \<^item> A raised exception is \<open>Inl\<close> of an \<open>error\<close>; nothing in the pipeline catches one,
    so it ends the script.
  \<^item> A DataFrame whose index matters is a list of (index label, row) pairs in row order.
  \<^item> A file that exists is a well-formed table with the columns the script reads.
  \<^item> Library functions whose result the scripts do not determine are parameters:
    \<open>sort_values\<close> (pandas, called with its default \<open>kind\<close>), \<open>geodesic\<close> (geopy),
    \<open>pyfloat\<close> (Python's \<open>float\<close> on a string, \<open>None\<close> when it raises ValueError) and
    \<open>ET_parse\<close> (the XML parser with the placemark queries).
\<close>

datatype error = ValueError | KeyError | AttributeError | ParseError | OverflowError

subsection \<open>Strings\<close>

text \<open>The ASCII characters that \<open>str.strip()\<close> removes and that \<open>\s\<close> matches.\<close>

definition whitespace :: "char list" where
  "whitespace =
     [CHR 0x09, CHR 0x0A, CHR 0x0B, CHR 0x0C, CHR 0x0D,
      CHR 0x1C, CHR 0x1D, CHR 0x1E, CHR 0x1F, CHR 0x20]"

definition is_space :: "char \<Rightarrow> bool" where
  "is_space c = (c \<in> set whitespace)"

definition is_digit :: "char \<Rightarrow> bool" where
  "is_digit c = (c \<in> set ''0123456789'')"

definition strip :: "string \<Rightarrow> string" where
  "strip s = rev (dropWhile is_space (rev (dropWhile is_space s)))"

text \<open>\<open>name.endswith(suffix)\<close>\<close>

definition endswith :: "string \<Rightarrow> string \<Rightarrow> bool" where
  "endswith name suf =
     (length suf \<le> length name \<and> drop (length name - length suf) name = suf)"

text \<open>\<open>coords.split(',')\<close>: the fields between commas; never an empty list.\<close>

fun split_comma :: "string \<Rightarrow> string list" where
  "split_comma [] = [[]]"
| "split_comma (c # cs) =
     (if c = CHR '','' then [] # split_comma cs
      else (case split_comma cs of
              [] \<Rightarrow> [[c]]
            | f # fs \<Rightarrow> (c # f) # fs))"

text \<open>\<open>int(match.group(1))\<close> on a string of decimal digits.\<close>

definition digit_val :: "char \<Rightarrow> int" where
  "digit_val c = int (of_char c) - 48"

definition int_of_digits :: "string \<Rightarrow> int" where
  "int_of_digits ds = foldl (\<lambda>a c. 10 * a + digit_val c) 0 ds"

text \<open>
  \<open>re.match(r'Punkt\s*(\d+)', name_text, re.IGNORECASE)\<close>: anchored at the start only;
  the result is group 1. Whitespace and digits are disjoint, so the greedy \<open>\s*\<close> never
  gives anything back.
\<close>

fun punkt_prefix :: "string \<Rightarrow> string option" where
  "punkt_prefix (p # u # n # k # t # rest) =
     (if p \<in> {CHR ''P'', CHR ''p''} \<and> u \<in> {CHR ''U'', CHR ''u''} \<and>
         n \<in> {CHR ''N'', CHR ''n''} \<and> k \<in> {CHR ''K'', CHR ''k''} \<and>
         t \<in> {CHR ''T'', CHR ''t''}
      then Some rest else None)"
| "punkt_prefix _ = None"

definition punkt_match :: "string \<Rightarrow> string option" where
  "punkt_match name_text =
     (case punkt_prefix name_text of
        None \<Rightarrow> None
      | Some rest \<Rightarrow>
          (let digits = takeWhile is_digit (dropWhile is_space rest)
           in if digits = [] then None else Some digits))"

subsection \<open>Building registry\<close>

text \<open>
  \<open>house_coords\<close>: house id to (lat, lon, name). A placemark is what the two \<open>find\<close> calls
  return for it: \<open>None\<close> when the element is absent, else the element's \<open>.text\<close>, which is
  itself \<open>None\<close> for an empty element.
\<close>

type_synonym house_coords = "int \<rightharpoonup> real \<times> real \<times> string"

record placemark =
  name_elem :: "string option option"
  coord_elem :: "string option option"

text \<open>
  \<open>lon, lat, *_ = map(float, coords.split(','))\<close>: every field is converted (the starred
  target consumes the rest), and fewer than two fields cannot be unpacked.
\<close>

definition unpack_lon_lat :: "(string \<Rightarrow> real option) \<Rightarrow> string \<Rightarrow> error + real \<times> real" where
  "unpack_lon_lat pyfloat coords =
     (case those (map pyfloat (split_comma coords)) of
        None \<Rightarrow> Inl ValueError
      | Some (lon # lat # _) \<Rightarrow> Inr (lon, lat)
      | Some _ \<Rightarrow> Inl ValueError)"

text \<open>
  The body of the placemark loop:
  \<^verbatim>\<open>
  if name_elem is not None and coord_elem is not None:
      name_text = name_elem.text.strip()
      match = re.match(r'Punkt\s*(\d+)', name_text, re.IGNORECASE)
      if match:
          house_id = int(match.group(1))
          coords = coord_elem.text.strip()
          lon, lat, *_ = map(float, coords.split(','))
          house_coords[house_id] = (lat, lon, name_text)
  \<close>
\<close>

definition add_placemark ::
  "(string \<Rightarrow> real option) \<Rightarrow> placemark \<Rightarrow> house_coords \<Rightarrow> error + house_coords" where
  "add_placemark pyfloat pm house_coords =
     (case (name_elem pm, coord_elem pm) of
        (Some name_field, Some coord_field) \<Rightarrow>
          (case name_field of
             None \<Rightarrow> Inl AttributeError
           | Some name_raw \<Rightarrow>
               (let name_text = strip name_raw in
                case punkt_match name_text of
                  None \<Rightarrow> Inr house_coords
                | Some digits \<Rightarrow>
                    (let house_id = int_of_digits digits in
                     case coord_field of
                       None \<Rightarrow> Inl AttributeError
                     | Some coord_raw \<Rightarrow>
                         (case unpack_lon_lat pyfloat (strip coord_raw) of
                            Inl e \<Rightarrow> Inl e
                          | Inr (lon, lat) \<Rightarrow>
                              Inr (house_coords(house_id \<mapsto> (lat, lon, name_text)))))))
      | _ \<Rightarrow> Inr house_coords)"

fun add_placemarks ::
  "(string \<Rightarrow> real option) \<Rightarrow> placemark list \<Rightarrow> house_coords \<Rightarrow> error + house_coords" where
  "add_placemarks pyfloat [] house_coords = Inr house_coords"
| "add_placemarks pyfloat (pm # pms) house_coords =
     (case add_placemark pyfloat pm house_coords of
        Inl e \<Rightarrow> Inl e
      | Inr house_coords' \<Rightarrow> add_placemarks pyfloat pms house_coords')"

text \<open>
  \<^verbatim>\<open>
  house_coords = {}
  kml_file = None
  with zipfile.ZipFile(kmz_path, 'r') as z:
      for name in z.namelist():
          if name.endswith('.kml'):
              kml_file = name
              z.extract(name, ".")
              break
  if kml_file:
      ...
  \<close>
  \<open>ET_parse kml_file\<close> is the list of placemarks of the extracted document, or the
  parser's error.
\<close>

definition find_kml :: "string list \<Rightarrow> string option" where
  "find_kml namelist = List.find (\<lambda>name. endswith name ''.kml'') namelist"

definition load_house_coords ::
  "(string \<Rightarrow> error + placemark list) \<Rightarrow> (string \<Rightarrow> real option) \<Rightarrow> string list
     \<Rightarrow> error + house_coords" where
  "load_house_coords ET_parse pyfloat namelist =
     (case find_kml namelist of
        None \<Rightarrow> Inr Map.empty
      | Some kml_file \<Rightarrow>
          if kml_file = [] then Inr Map.empty
          else (case ET_parse kml_file of
                  Inl e \<Rightarrow> Inl e
                | Inr placemarks \<Rightarrow> add_placemarks pyfloat placemarks Map.empty))"

subsection \<open>Trajectory table\<close>

text \<open>A row of the GPS csv as read (\<open>gps_raw\<close>) and after \<open>dropna\<close> (\<open>gps_row\<close>).\<close>

record gps_raw =
  raw_latitude :: "real option"
  raw_longitude :: "real option"
  raw_synced_time :: "int option"

record gps_row =
  latitude :: real
  longitude :: real
  synced_time :: int

type_synonym gps_frame = "(nat \<times> gps_row) list"

text \<open>\<open>dropna(subset=['latitude', 'longitude', 'synced_time'])\<close> on one labelled row.\<close>

definition dropna_gps :: "nat \<times> gps_raw \<Rightarrow> (nat \<times> gps_row) option" where
  "dropna_gps lr =
     (case (raw_latitude (snd lr), raw_longitude (snd lr), raw_synced_time (snd lr)) of
        (Some la, Some lo, Some t) \<Rightarrow>
          Some (fst lr, \<lparr>latitude = la, longitude = lo, synced_time = t\<rparr>)
      | _ \<Rightarrow> None)"

text \<open>
  \<^verbatim>\<open>
  gps_df = pd.read_csv(gps_path)
  gps_df['synced_time'] = pd.to_datetime(gps_df['synced_time'], errors='coerce')
  gps_df = gps_df.dropna(subset=[...]).sort_values(by='synced_time')
  \<close>
  \<open>read_csv\<close> labels the rows 0, 1, 2, ...; neither \<open>dropna\<close> nor \<open>sort_values\<close> relabels.
  The scripts pass no \<open>kind\<close> to \<open>sort_values\<close>, so the algorithm is the library's default,
  and the order it gives to rows with equal timestamps is not determined by the scripts:
  \<open>sort_values\<close> is a parameter, and a property that needs it to permute its argument says so.
\<close>

definition load_gps :: "(gps_frame \<Rightarrow> gps_frame) \<Rightarrow> gps_raw list \<Rightarrow> gps_frame" where
  "load_gps sort_values gps_csv =
     sort_values (List.map_filter dropna_gps (List.enumerate 0 gps_csv))"

subsection \<open>Nearest GPS row in time\<close>

text \<open>
  \<open>gps_df['synced_time'] - ts\<close>: pandas subtracts the int64 nanosecond counts with an
  overflow check and raises OverflowError when a difference does not fit, that is when a
  sample and the fixation are more than about 292 years apart. The difference \<open>-2^63\<close>
  is the code of NaT in the result; it is taken with the overflows here.
\<close>

definition i8max :: int where
  "i8max = 2 ^ 63 - 1"

definition sub_overflowsafe :: "int \<Rightarrow> int \<Rightarrow> error + int" where
  "sub_overflowsafe a b = (if \<bar>a - b\<bar> \<le> i8max then Inr (a - b) else Inl OverflowError)"

fun sub_series :: "gps_frame \<Rightarrow> int \<Rightarrow> error + (nat \<times> int) list" where
  "sub_series [] ts = Inr []"
| "sub_series (lr # rows) ts =
     (case sub_overflowsafe (synced_time (snd lr)) ts of
        Inl e \<Rightarrow> Inl e
      | Inr d \<Rightarrow>
          (case sub_series rows ts of
             Inl e \<Rightarrow> Inl e
           | Inr ds \<Rightarrow> Inr ((fst lr, d) # ds)))"

text \<open>
  \<open>Series.idxmin()\<close>: the index label of the first occurrence of the minimum; on an
  empty series it raises ValueError. \<open>idxmin_from\<close> is the scan with the best entry so far.
\<close>

fun idxmin_from :: "nat \<times> int \<Rightarrow> (nat \<times> int) list \<Rightarrow> nat" where
  "idxmin_from (bl, bv) [] = bl"
| "idxmin_from (bl, bv) ((l, v) # xs) =
     (if v < bv then idxmin_from (l, v) xs else idxmin_from (bl, bv) xs)"

fun idxmin :: "(nat \<times> int) list \<Rightarrow> error + nat" where
  "idxmin [] = Inl ValueError"
| "idxmin (x # xs) = Inr (idxmin_from x xs)"

text \<open>
  \<open>gps_df.loc[idx, ['latitude', 'longitude']]\<close>: the row labelled \<open>idx\<close>. A label that is
  absent raises KeyError. When several rows carry the label, \<open>.loc\<close> returns a frame
  instead of a row, and building a position from its columns raises ValueError.
\<close>

definition loc :: "gps_frame \<Rightarrow> nat \<Rightarrow> error + gps_row" where
  "loc gps_df idx =
     (case filter (\<lambda>lr. fst lr = idx) gps_df of
        [] \<Rightarrow> Inl KeyError
      | [lr] \<Rightarrow> Inr (snd lr)
      | _ \<Rightarrow> Inl ValueError)"

text \<open>
  \<^verbatim>\<open>
  def find_closest_position(ts):
      idx = (gps_df['synced_time'] - ts).abs().idxmin()
      return gps_df.loc[idx, ['latitude', 'longitude']]
  \<close>
\<close>

definition find_closest_position :: "gps_frame \<Rightarrow> int \<Rightarrow> error + real \<times> real" where
  "find_closest_position gps_df ts =
     (case sub_series gps_df ts of
        Inl e \<Rightarrow> Inl e
      | Inr ds \<Rightarrow>
          (case idxmin (map (\<lambda>ld. (fst ld, \<bar>snd ld\<bar>)) ds) of
             Inl e \<Rightarrow> Inl e
           | Inr idx \<Rightarrow>
               (case loc gps_df idx of
                  Inl e \<Rightarrow> Inl e
                | Inr r \<Rightarrow> Inr (latitude r, longitude r))))"

subsection \<open>Fixation table\<close>

text \<open>
  A row of the fixation sheet as read (\<open>fix_raw\<close>) and after \<open>dropna\<close> (\<open>fix_row\<close>). The
  \<open>house_nr\<close> column is integer-valued; \<open>frame_nr\<close> and \<open>session\<close> are \<open>None\<close> when the sheet
  has no such column (\<open>row.get\<close>).
\<close>

record fix_raw =
  raw_start_timestamp_ns :: "int option"
  raw_house_nr :: int
  raw_frame_nr :: "int option"
  raw_session :: "string option"

record fix_row =
  start_timestamp_ns :: int
  house_nr :: int
  frame_nr :: "int option"
  session :: "string option"

definition dropna_fix :: "fix_raw \<Rightarrow> fix_row option" where
  "dropna_fix r =
     (case raw_start_timestamp_ns r of
        None \<Rightarrow> None
      | Some t \<Rightarrow>
          Some \<lparr>start_timestamp_ns = t, house_nr = raw_house_nr r,
                frame_nr = raw_frame_nr r, session = raw_session r\<rparr>)"

text \<open>
  \<^verbatim>\<open>
  fix_df = fix_df.dropna(subset=['start_timestamp_ns'])
  fix_df = fix_df[(fix_df['house_nr'] != 0) & (fix_df['house_nr'].isin(house_coords.keys()))]
  \<close>
\<close>

definition load_fix :: "house_coords \<Rightarrow> fix_raw list \<Rightarrow> fix_row list" where
  "load_fix house_coords fix_xlsx =
     filter (\<lambda>row. house_nr row \<noteq> 0 \<and> house_nr row \<in> dom house_coords)
       (List.map_filter dropna_fix fix_xlsx)"

subsection \<open>The batch over session pairs\<close>

record result =
  expl :: nat
  et :: nat
  res_house_nr :: int
  building_name :: string
  fixation_time :: int
  person_position :: "real \<times> real"
  target_position :: "real \<times> real"
  distance_m :: real
  res_frame_nr :: "int option"
  res_session :: "string option"

text \<open>
  The loop over the fixation rows of one session pair, appending to \<open>all_results\<close>:
  \<^verbatim>\<open>
  for _, row in fix_df.iterrows():
      fixation_time = row['start_timestamp_ns']
      house_id = row['house_nr']
      if house_id in house_coords:
          target_lat, target_lon, building_name = house_coords[house_id]
          person_coords = find_closest_position(fixation_time)
          distance_m = geodesic((person_coords['latitude'], person_coords['longitude']),
                                (target_lat, target_lon)).meters
          all_results.append({...})
  \<close>
\<close>

fun calc_distances ::
  "(real \<times> real \<Rightarrow> real \<times> real \<Rightarrow> real) \<Rightarrow> house_coords \<Rightarrow> nat \<times> nat \<Rightarrow> gps_frame
     \<Rightarrow> fix_row list \<Rightarrow> result list \<Rightarrow> error + result list" where
  "calc_distances geodesic house_coords key gps_df [] all_results = Inr all_results"
| "calc_distances geodesic house_coords key gps_df (row # rows) all_results =
     (case house_coords (house_nr row) of
        None \<Rightarrow> calc_distances geodesic house_coords key gps_df rows all_results
      | Some (target_lat, target_lon, name) \<Rightarrow>
          (case find_closest_position gps_df (start_timestamp_ns row) of
             Inl e \<Rightarrow> Inl e
           | Inr person_coords \<Rightarrow>
               calc_distances geodesic house_coords key gps_df rows
                 (all_results @
                  [\<lparr>expl = fst key, et = snd key, res_house_nr = house_nr row,
                    building_name = name, fixation_time = start_timestamp_ns row,
                    person_position = person_coords,
                    target_position = (target_lat, target_lon),
                    distance_m = geodesic person_coords (target_lat, target_lon),
                    res_frame_nr = frame_nr row, res_session = session row\<rparr>])))"

text \<open>
  The files of a session pair: \<open>None\<close> when \<open>os.path.exists\<close> is false. The two \<open>print\<close>
  calls are recorded by their kind and the pair they name.
\<close>

record session_files =
  gps_file :: "gps_raw list option"
  fix_file :: "fix_raw list option"

datatype log_msg = Skipping nat nat | Processing nat nat

record run_state =
  all_results :: "result list"
  printed :: "log_msg list"

text \<open>
  One iteration of the loop body for the pair \<open>(expl, et)\<close>:
  \<^verbatim>\<open>
  if not (os.path.exists(gps_path) and os.path.exists(fix_path)):
      print(f"Skipping pair: ...")
      continue
  print(f"Processing: ...")
  \<close>
  followed by the two loads and the fixation loop.
\<close>

definition process_pair ::
  "(gps_frame \<Rightarrow> gps_frame) \<Rightarrow> (real \<times> real \<Rightarrow> real \<times> real \<Rightarrow> real) \<Rightarrow> house_coords
     \<Rightarrow> (nat \<times> nat \<Rightarrow> session_files) \<Rightarrow> nat \<times> nat \<Rightarrow> run_state \<Rightarrow> error + run_state" where
  "process_pair sort_values geodesic house_coords files key st =
     (case (gps_file (files key), fix_file (files key)) of
        (Some gps_csv, Some fix_xlsx) \<Rightarrow>
          (let printed' = printed st @ [Processing (fst key) (snd key)];
               gps_df = load_gps sort_values gps_csv;
               fix_df = load_fix house_coords fix_xlsx
           in case calc_distances geodesic house_coords key gps_df fix_df (all_results st) of
                Inl e \<Rightarrow> Inl e
              | Inr rs \<Rightarrow> Inr \<lparr>all_results = rs, printed = printed'\<rparr>)
      | _ \<Rightarrow>
          Inr \<lparr>all_results = all_results st,
               printed = printed st @ [Skipping (fst key) (snd key)]\<rparr>)"

fun run_pairs ::
  "(gps_frame \<Rightarrow> gps_frame) \<Rightarrow> (real \<times> real \<Rightarrow> real \<times> real \<Rightarrow> real) \<Rightarrow> house_coords
     \<Rightarrow> (nat \<times> nat \<Rightarrow> session_files) \<Rightarrow> (nat \<times> nat) list \<Rightarrow> run_state \<Rightarrow> error + run_state" where
  "run_pairs sort_values geodesic house_coords files [] st = Inr st"
| "run_pairs sort_values geodesic house_coords files (key # keys) st =
     (case process_pair sort_values geodesic house_coords files key st of
        Inl e \<Rightarrow> Inl e
      | Inr st' \<Rightarrow> run_pairs sort_values geodesic house_coords files keys st')"

text \<open>\<open>for expl in range(1, 6): for et in range(1, 4):\<close>\<close>

definition session_keys :: "(nat \<times> nat) list" where
  "session_keys = concat (map (\<lambda>expl. map (\<lambda>et. (expl, et)) [1..<4]) [1..<6])"

definition initial_state :: run_state where
  "initial_state = \<lparr>all_results = [], printed = []\<rparr>"

subsection \<open>Outliers\<close>

text \<open>
  \<open>pd.DataFrame(all_results)\<close> takes its columns from the keys of the dictionaries, so a
  frame built from the empty list has no column, and \<open>distance_df['distance_m']\<close> on it
  raises KeyError.
\<close>

definition DataFrame_columns :: "result list \<Rightarrow> string list" where
  "DataFrame_columns rs =
     (if rs = [] then []
      else [''expl'', ''et'', ''house_nr'', ''building_name'', ''fixation_time'',
            ''person_position'', ''target_position'', ''distance_m'', ''frame_nr'',
            ''session''])"

definition distance_m_column :: "result list \<Rightarrow> error + real list" where
  "distance_m_column distance_df =
     (if ''distance_m'' \<in> set (DataFrame_columns distance_df)
      then Inr (map distance_m distance_df) else Inl KeyError)"

text \<open>
  float64 arithmetic. \<open>round_double\<close> is IEEE 754 round-to-nearest, ties to even, with
  53 significant bits: a non-zero \<open>x\<close> with \<open>2^e \<le> |x| < 2^(e+1)\<close> is rounded to the nearest
  multiple of \<open>2^(e-52)\<close>. Each operation returns the rounding of its exact result.
\<close>

definition round_half_even :: "real \<Rightarrow> int" where
  "round_half_even y =
     (let f = \<lfloor>y\<rfloor>; r = y - of_int f
      in if r < 1 / 2 then f else if 1 / 2 < r then f + 1 else if even f then f else f + 1)"

definition round_double :: "real \<Rightarrow> real" where
  "round_double x =
     (if x = 0 then 0
      else (let e = \<lfloor>log 2 \<bar>x\<bar>\<rfloor>; u = 2 powr (of_int e - 52)
            in u * of_int (round_half_even (x / u))))"

definition fadd :: "real \<Rightarrow> real \<Rightarrow> real" where
  "fadd x y = round_double (x + y)"

definition fsub :: "real \<Rightarrow> real \<Rightarrow> real" where
  "fsub x y = round_double (x - y)"

definition fmul :: "real \<Rightarrow> real \<Rightarrow> real" where
  "fmul x y = round_double (x * y)"

text \<open>
  \<open>Series.quantile(q)\<close> with pandas' default linear interpolation, which is numpy's
  percentile with the linear method: on the sorted values, the position is
  \<open>(n - 1) * q\<close>, and the result is interpolated between the values \<open>a\<close> and \<open>b\<close> at the two
  neighbouring indices with the weight \<open>t\<close>, the fractional part of the position, as
  \<^verbatim>\<open>a + (b - a) * t\<close> and, where \<^verbatim>\<open>t >= 0.5\<close>, as \<^verbatim>\<open>b - (b - a) * (1 - t)\<close>.
  For \<open>q = 0.25\<close> and \<open>q = 0.75\<close> numpy's computation of the position and of \<open>t\<close> is exact
  in float64 (for every frame shorter than \<open>2^50\<close> rows), so these two are not rounded
  here. On an empty series the result is NaN, here \<open>None\<close>.
\<close>

definition lerp :: "real \<Rightarrow> real \<Rightarrow> real \<Rightarrow> real" where
  "lerp a b t =
     (if 1 / 2 \<le> t then fsub b (fmul (fsub b a) (fsub 1 t))
      else fadd a (fmul (fsub b a) t))"

definition quantile :: "real list \<Rightarrow> real \<Rightarrow> real option" where
  "quantile xs q =
     (if xs = [] then None
      else (let s = sort xs; n = length s; h = real (n - 1) * q;
                lo = nat \<lfloor>h\<rfloor>; hi = min (lo + 1) (n - 1)
            in Some (lerp (s ! lo) (s ! hi) (h - real lo))))"

text \<open>
  \<^verbatim>\<open>
  Q1 = distance_df['distance_m'].quantile(0.25)
  Q3 = distance_df['distance_m'].quantile(0.75)
  IQR = Q3 - Q1
  outlier_df = distance_df[(distance_df['distance_m'] < Q1 - 1.5 * IQR) |
                           (distance_df['distance_m'] > Q3 + 1.5 * IQR)]
  \<close>
  The subtraction, the two products and the two bounds are float64 operations; the
  comparisons are exact. A comparison with NaN is false, so NaN quartiles select no row.
\<close>

definition quartiles :: "real list \<Rightarrow> (real \<times> real \<times> real) option" where
  "quartiles d =
     (case (quantile d 0.25, quantile d 0.75) of
        (Some Q1, Some Q3) \<Rightarrow> Some (Q1, Q3, fsub Q3 Q1)
      | _ \<Rightarrow> None)"

fun is_outlier :: "real \<times> real \<times> real \<Rightarrow> real \<Rightarrow> bool" where
  "is_outlier (Q1, Q3, IQR) x =
     (x < fsub Q1 (fmul 1.5 IQR) \<or> x > fadd Q3 (fmul 1.5 IQR))"

definition outlier_df :: "result list \<Rightarrow> error + result list" where
  "outlier_df distance_df =
     (case distance_m_column distance_df of
        Inl e \<Rightarrow> Inl e
      | Inr d \<Rightarrow>
          (case quartiles d of
             None \<Rightarrow> Inr []
           | Some q \<Rightarrow> Inr (filter (\<lambda>r. is_outlier q (distance_m r)) distance_df)))"

text \<open>outliers.py from the archive to the outlier frame.\<close>

definition outliers_script ::
  "(string \<Rightarrow> error + placemark list) \<Rightarrow> (string \<Rightarrow> real option) \<Rightarrow> (gps_frame \<Rightarrow> gps_frame)
     \<Rightarrow> (real \<times> real \<Rightarrow> real \<times> real \<Rightarrow> real) \<Rightarrow> string list \<Rightarrow> (nat \<times> nat \<Rightarrow> session_files)
     \<Rightarrow> error + result list" where
  "outliers_script ET_parse pyfloat sort_values geodesic namelist files =
     (case load_house_coords ET_parse pyfloat namelist of
        Inl e \<Rightarrow> Inl e
      | Inr house_coords \<Rightarrow>
          (case run_pairs sort_values geodesic house_coords files session_keys initial_state of
             Inl e \<Rightarrow> Inl e
           | Inr st \<Rightarrow> outlier_df (all_results st)))"

subsection \<open>Example data\<close>

text \<open>
  A GPS csv of four rows, one of them without latitude, and the frame it loads to under a
  sort by timestamp: the rows keep the labels of the csv, and the last two share a timestamp.
  \<open>ex_sort_values\<close> is one sort by timestamp and \<open>ex_geodesic\<close> one distance function;
  they stand for the library functions in the examples only.
\<close>

definition ex_gps_csv :: "gps_raw list" where
  "ex_gps_csv =
     [\<lparr>raw_latitude = Some 52, raw_longitude = Some 13, raw_synced_time = Some 10\<rparr>,
      \<lparr>raw_latitude = Some 52, raw_longitude = Some 13.0001, raw_synced_time = Some 0\<rparr>,
      \<lparr>raw_latitude = None, raw_longitude = Some 13, raw_synced_time = Some 9\<rparr>,
      \<lparr>raw_latitude = Some 53, raw_longitude = Some 14, raw_synced_time = Some 10\<rparr>]"

definition ex_gps_df :: gps_frame where
  "ex_gps_df =
     [(1, \<lparr>latitude = 52, longitude = 13.0001, synced_time = 0\<rparr>),
      (0, \<lparr>latitude = 52, longitude = 13, synced_time = 10\<rparr>),
      (3, \<lparr>latitude = 53, longitude = 14, synced_time = 10\<rparr>)]"

definition ex_sort_values :: "gps_frame \<Rightarrow> gps_frame" where
  "ex_sort_values df = sort_key (\<lambda>lr. synced_time (snd lr)) df"

definition ex_geodesic :: "real \<times> real \<Rightarrow> real \<times> real \<Rightarrow> real" where
  "ex_geodesic p q = \<bar>fst p - fst q\<bar> + \<bar>snd p - snd q\<bar>"

text \<open>
  A registry with building 1, and a fixation sheet of four rows: one on building 1, one
  with house number 0, one on a building that is not in the registry, one without a
  timestamp.
\<close>

definition ex_house_coords :: house_coords where
  "ex_house_coords = [1 \<mapsto> (52, 13, ''Punkt 1'')]"

definition ex_fix_xlsx :: "fix_raw list" where
  "ex_fix_xlsx =
     [\<lparr>raw_start_timestamp_ns = Some 9, raw_house_nr = 1,
       raw_frame_nr = Some 40, raw_session = Some ''Expl_2_ET_3''\<rparr>,
      \<lparr>raw_start_timestamp_ns = Some 3, raw_house_nr = 0,
       raw_frame_nr = Some 41, raw_session = Some ''Expl_2_ET_3''\<rparr>,
      \<lparr>raw_start_timestamp_ns = Some 4, raw_house_nr = 7,
       raw_frame_nr = Some 42, raw_session = Some ''Expl_2_ET_3''\<rparr>,
      \<lparr>raw_start_timestamp_ns = None, raw_house_nr = 1,
       raw_frame_nr = Some 43, raw_session = Some ''Expl_2_ET_3''\<rparr>]"

text \<open>
  Session files: pair (2, 2) has no GPS file, pair (2, 3) has both files, pair (3, 2) has
  a GPS file without rows; no other pair has any file.
\<close>

definition ex_files :: "nat \<times> nat \<Rightarrow> session_files" where
  "ex_files key =
     (if key = (2, 2) then \<lparr>gps_file = None, fix_file = Some ex_fix_xlsx\<rparr>
      else if key = (2, 3) then \<lparr>gps_file = Some ex_gps_csv, fix_file = Some ex_fix_xlsx\<rparr>
      else if key = (3, 2) then \<lparr>gps_file = Some [], fix_file = Some ex_fix_xlsx\<rparr>
      else \<lparr>gps_file = None, fix_file = None\<rparr>)"

definition ex_result :: result where
  "ex_result =
     \<lparr>expl = 2, et = 3, res_house_nr = 1, building_name = ''Punkt 1'', fixation_time = 9,
      person_position = (52, 13), target_position = (52, 13), distance_m = 0,
      res_frame_nr = Some 40, res_session = Some ''Expl_2_ET_3''\<rparr>"

text \<open>
  The pooled distances of the quartile scenario in the order of some run, carried by
  copies of one result row.
\<close>

definition ex_distances :: "real list" where
  "ex_distances = [3, 100, 1, 4, 2, 3, 5, 2, 4, 3]"

definition ex_distance_df :: "result list" where
  "ex_distance_df = map (\<lambda>d. ex_result\<lparr>distance_m := d\<rparr>) ex_distances"

text \<open>
  An archive with one markup document of two placemarks, the second without a point, and
  \<open>float\<close> on the three coordinate fields that occur in it.
\<close>

definition ex_pyfloat :: "string \<Rightarrow> real option" where
  "ex_pyfloat s =
     (if s = ''13.0'' then Some 13 else if s = ''52.0'' then Some 52
      else if s = ''0'' then Some 0 else None)"

definition ex_placemarks :: "placemark list" where
  "ex_placemarks =
     [\<lparr>name_elem = Some (Some '' Punkt 1''), coord_elem = Some (Some ''13.0,52.0,0 '')\<rparr>,
      \<lparr>name_elem = Some (Some ''Weg''), coord_elem = None\<rparr>]"

definition ex_ET_parse :: "string \<Rightarrow> error + placemark list" where
  "ex_ET_parse kml_file = (if kml_file = ''doc.kml'' then Inr ex_placemarks else Inl ParseError)"

definition ex_namelist :: "string list" where
  "ex_namelist = [''files/icon.png'', ''doc.kml'']"

text \<open>
  Session files for a pooled run over five sessions, each with a trajectory of one row at
  the given position and with the example fixation sheet; the distances to the building
  at (52, 13) are 0, 2, 100, 4 and 8 in the order of the run. \<open>ex_pooled_results\<close> and
  \<open>ex_pooled_log\<close> are what each pair adds to the results and to the log.
\<close>

definition ex_pooled_position :: "nat \<times> nat \<Rightarrow> (real \<times> real) option" where
  "ex_pooled_position key =
     (if key = (2, 2) then Some (52, 13) else if key = (2, 3) then Some (54, 13)
      else if key = (3, 2) then Some (52, 113) else if key = (3, 3) then Some (56, 13)
      else if key = (4, 2) then Some (60, 13) else None)"

definition ex_files_pooled :: "nat \<times> nat \<Rightarrow> session_files" where
  "ex_files_pooled key =
     (case ex_pooled_position key of
        None \<Rightarrow> \<lparr>gps_file = None, fix_file = None\<rparr>
      | Some p \<Rightarrow>
          \<lparr>gps_file = Some [\<lparr>raw_latitude = Some (fst p), raw_longitude = Some (snd p),
                              raw_synced_time = Some 5\<rparr>],
           fix_file = Some ex_fix_xlsx\<rparr>)"

definition ex_pooled_results :: "nat \<times> nat \<Rightarrow> result list" where
  "ex_pooled_results key =
     (case ex_pooled_position key of
        None \<Rightarrow> []
      | Some p \<Rightarrow>
          [ex_result\<lparr>expl := fst key, et := snd key, person_position := p,
                     distance_m := ex_geodesic p (52, 13)\<rparr>])"

definition ex_pooled_log :: "nat \<times> nat \<Rightarrow> log_msg" where
  "ex_pooled_log key =
     (case ex_pooled_position key of
        None \<Rightarrow> Skipping (fst key) (snd key)
      | Some p \<Rightarrow> Processing (fst key) (snd key))"

text \<open>
  Five result rows whose distances are the float64 values nearest to 0.1, 0.1, 0.1, 1.3
  and 3.1.
\<close>

definition ex_boundary_df :: "result list" where
  "ex_boundary_df =
     map (\<lambda>d. ex_result\<lparr>distance_m := d\<rparr>)
       [3602879701896397 / 2 ^ 55, 3602879701896397 / 2 ^ 55, 3602879701896397 / 2 ^ 55,
        5854679515581645 / 2 ^ 52, 6980579422424269 / 2 ^ 51]"

text \<open>Session files where no pair has any file.\<close>

definition ex_no_files :: "nat \<times> nat \<Rightarrow> session_files" where
  "ex_no_files key = \<lparr>gps_file = None, fix_file = None\<rparr>"

section \<open>Properties\<close>

subsection \<open>The index scan\<close>

lemma idxmin_from_first_min:
  "\<exists>i < length (b # xs).
     idxmin_from b xs = fst ((b # xs) ! i) \<and>
     (\<forall>j < length (b # xs). snd ((b # xs) ! i) \<le> snd ((b # xs) ! j)) \<and>
     (\<forall>j < i. snd ((b # xs) ! i) < snd ((b # xs) ! j))"
proof (induction xs arbitrary: b)
  case Nil
  show ?case by (cases b) simp
next
  case (Cons x xs)
  obtain bl bv where b: "b = (bl, bv)" by (cases b)
  obtain l v where x: "x = (l, v)" by (cases x)
  show ?case
  proof (cases "v < bv")
    case True
    from Cons.IH [of x] obtain i where i: "i < length (x # xs)"
      "idxmin_from x xs = fst ((x # xs) ! i)"
      "\<forall>j < length (x # xs). snd ((x # xs) ! i) \<le> snd ((x # xs) ! j)"
      "\<forall>j < i. snd ((x # xs) ! i) < snd ((x # xs) ! j)"
      by blast
    from i(1,3) have le0: "snd ((x # xs) ! i) \<le> v"
      using x by (metis length_greater_0_conv list.distinct(1) nth_Cons_0 snd_conv)
    show ?thesis
    proof (intro exI [of _ "Suc i"] conjI allI impI)
      show "Suc i < length (b # x # xs)" using i(1) by simp
      show "idxmin_from b (x # xs) = fst ((b # x # xs) ! Suc i)"
        using True i(2) b x by simp
    next
      fix j assume "j < length (b # x # xs)"
      then show "snd ((b # x # xs) ! Suc i) \<le> snd ((b # x # xs) ! j)"
        using i(3) le0 True b by (cases j) auto
    next
      fix j assume "j < Suc i"
      then show "snd ((b # x # xs) ! Suc i) < snd ((b # x # xs) ! j)"
        using i(4) le0 True b by (cases j) auto
    qed
  next
    case False
    from Cons.IH [of b] obtain i where i: "i < length (b # xs)"
      "idxmin_from b xs = fst ((b # xs) ! i)"
      "\<forall>j < length (b # xs). snd ((b # xs) ! i) \<le> snd ((b # xs) ! j)"
      "\<forall>j < i. snd ((b # xs) ! i) < snd ((b # xs) ! j)"
      by blast
    have le0: "snd ((b # xs) ! i) \<le> bv"
      using i(1,3) b by (metis length_greater_0_conv list.distinct(1) nth_Cons_0 snd_conv)
    show ?thesis
    proof (cases i)
      case 0
      show ?thesis
      proof (intro exI [of _ 0] conjI allI impI)
        show "0 < length (b # x # xs)" by simp
        show "idxmin_from b (x # xs) = fst ((b # x # xs) ! 0)"
          using False i(2) 0 b x by simp
      next
        fix j assume j: "j < length (b # x # xs)"
        show "snd ((b # x # xs) ! 0) \<le> snd ((b # x # xs) ! j)"
        proof (cases j)
          case 0 then show ?thesis by simp
        next
          case (Suc k)
          show ?thesis
          proof (cases k)
            case 0
            then show ?thesis using Suc False b x by simp
          next
            case (Suc m)
            then have "Suc m < length (b # xs)" using j \<open>j = Suc k\<close> by simp
            with i(3) \<open>i = 0\<close> have "snd ((b # xs) ! 0) \<le> snd ((b # xs) ! Suc m)" by blast
            then show ?thesis using Suc \<open>j = Suc k\<close> by simp
          qed
        qed
      next
        fix j :: nat assume "j < 0"
        then show "snd ((b # x # xs) ! 0) < snd ((b # x # xs) ! j)" by simp
      qed
    next
      case (Suc n)
      have lt0: "snd ((b # xs) ! i) < bv" using i(4) Suc b by fastforce
      show ?thesis
      proof (intro exI [of _ "Suc i"] conjI allI impI)
        show "Suc i < length (b # x # xs)" using i(1) by simp
        show "idxmin_from b (x # xs) = fst ((b # x # xs) ! Suc i)"
          using False i(2) Suc b x by simp
      next
        fix j assume j: "j < length (b # x # xs)"
        show "snd ((b # x # xs) ! Suc i) \<le> snd ((b # x # xs) ! j)"
        proof (cases j)
          case 0 then show ?thesis using le0 Suc b by simp
        next
          case (Suc k)
          show ?thesis
          proof (cases k)
            case 0
            then show ?thesis using \<open>j = Suc k\<close> \<open>i = Suc n\<close> lt0 False b x by simp
          next
            case (Suc m)
            then have "Suc m < length (b # xs)" using j \<open>j = Suc k\<close> by simp
            with i(3) have "snd ((b # xs) ! i) \<le> snd ((b # xs) ! Suc m)" by blast
            then show ?thesis using Suc \<open>j = Suc k\<close> \<open>i = Suc n\<close> by simp
          qed
        qed
      next
        fix j assume j: "j < Suc i"
        show "snd ((b # x # xs) ! Suc i) < snd ((b # x # xs) ! j)"
        proof (cases j)
          case 0 then show ?thesis using lt0 Suc b by simp
        next
          case (Suc k)
          show ?thesis
          proof (cases k)
            case 0
            then show ?thesis using \<open>j = Suc k\<close> \<open>i = Suc n\<close> lt0 False b x by simp
          next
            case (Suc m)
            then have "Suc m < i" using j \<open>j = Suc k\<close> by simp
            with i(4) have "snd ((b # xs) ! i) < snd ((b # xs) ! Suc m)" by blast
            then show ?thesis using Suc \<open>j = Suc k\<close> \<open>i = Suc n\<close> by simp
          qed
        qed
      qed
    qed
  qed
qed

subsection \<open>Index labels\<close>

lemma filter_fst_distinct:
  "distinct (map fst df) \<Longrightarrow> i < length df \<Longrightarrow>
     filter (\<lambda>lr. fst lr = fst (df ! i)) df = [df ! i]"
proof (induction df arbitrary: i)
  case Nil
  then show ?case by simp
next
  case (Cons a df)
  show ?case
  proof (cases i)
    case 0
    have "\<forall>x \<in> set df. fst x \<noteq> fst a" using Cons.prems(1) by (auto simp: image_iff)
    then have "filter (\<lambda>lr. fst lr = fst a) df = []" by (simp add: filter_empty_conv)
    then show ?thesis using 0 by simp
  next
    case (Suc k)
    then have k: "k < length df" using Cons.prems(2) by simp
    then have "fst (df ! k) \<in> fst ` set df" by simp
    moreover have "fst a \<notin> fst ` set df" using Cons.prems(1) by simp
    ultimately have "fst (df ! k) \<noteq> fst a" by metis
    moreover have "filter (\<lambda>lr. fst lr = fst (df ! k)) df = [df ! k]"
      using Cons.IH [of k] Cons.prems(1) k by simp
    ultimately show ?thesis using Suc by auto
  qed
qed

lemma loc_distinct:
  "distinct (map fst df) \<Longrightarrow> i < length df \<Longrightarrow> loc df (fst (df ! i)) = Inr (snd (df ! i))"
  by (simp add: loc_def filter_fst_distinct)

lemma dropna_gps_label: "dropna_gps lr = Some lr' \<Longrightarrow> fst lr' = fst lr"
  by (auto simp: dropna_gps_def split: option.splits)

lemma map_filter_labels_subset:
  "fst ` set (List.map_filter dropna_gps xs) \<subseteq> fst ` set xs"
proof (induction xs)
  case Nil
  show ?case by (simp add: List.map_filter_simps)
next
  case (Cons x xs)
  show ?case
  proof (cases "dropna_gps x")
    case None
    then show ?thesis using Cons by (auto simp: List.map_filter_simps)
  next
    case (Some y)
    then have "fst y = fst x" by (rule dropna_gps_label)
    then show ?thesis using Cons Some by (auto simp: List.map_filter_simps)
  qed
qed

lemma map_filter_labels_distinct:
  "distinct (map fst xs) \<Longrightarrow> distinct (map fst (List.map_filter dropna_gps xs))"
proof (induction xs)
  case Nil
  then show ?case by (simp add: List.map_filter_simps)
next
  case (Cons x xs)
  note sub = map_filter_labels_subset [of xs]
  show ?case
  proof (cases "dropna_gps x")
    case None
    then show ?thesis using Cons by (simp add: List.map_filter_simps)
  next
    case (Some y)
    then have "fst y = fst x" by (rule dropna_gps_label)
    then show ?thesis using Cons Some sub by (auto simp: List.map_filter_simps)
  qed
qed

lemma load_gps_labels_distinct:
  assumes "\<And>xs. mset (sort_values xs) = mset xs"
  shows "distinct (map fst (load_gps sort_values gps_csv))"
proof -
  let ?c = "List.map_filter dropna_gps (List.enumerate 0 gps_csv)"
  have "distinct (map fst ?c)"
    by (rule map_filter_labels_distinct) simp
  moreover have "mset (map fst (sort_values ?c)) = mset (map fst ?c)"
    using assms [of ?c] by (metis mset_map)
  ultimately show ?thesis
    unfolding load_gps_def by (metis mset_eq_imp_distinct_iff)
qed

subsection \<open>Time differences\<close>

lemma sub_series_in_range:
  "\<forall>row \<in> set df. \<bar>synced_time (snd row) - ts\<bar> \<le> i8max \<Longrightarrow>
   sub_series df ts = Inr (map (\<lambda>lr. (fst lr, synced_time (snd lr) - ts)) df)"
  by (induction df) (simp_all add: sub_overflowsafe_def)

lemma sub_series_overflow:
  "\<exists>row \<in> set df. i8max < \<bar>synced_time (snd row) - ts\<bar> \<Longrightarrow>
   sub_series df ts = Inl OverflowError"
proof (induction df)
  case Nil
  then show ?case by simp
next
  case (Cons lr df)
  show ?case
  proof (cases "\<bar>synced_time (snd lr) - ts\<bar> \<le> i8max")
    case True
    then have "\<exists>row \<in> set df. i8max < \<bar>synced_time (snd row) - ts\<bar>"
      using Cons.prems by auto
    then have "sub_series df ts = Inl OverflowError" by (rule Cons.IH)
    then show ?thesis using True by (simp add: sub_overflowsafe_def)
  next
    case False
    then show ?thesis by (simp add: sub_overflowsafe_def)
  qed
qed

lemma find_closest_position_overflow:
  "\<exists>row \<in> set df. i8max < \<bar>synced_time (snd row) - ts\<bar> \<Longrightarrow>
   find_closest_position df ts = Inl OverflowError"
  by (simp add: find_closest_position_def sub_series_overflow)

lemma closest_first_min_frame:
  assumes "distinct (map fst gps_df)" and "gps_df \<noteq> []"
    and "\<forall>row \<in> set gps_df. \<bar>synced_time (snd row) - ts\<bar> \<le> i8max"
  shows "\<exists>i < length gps_df.
           find_closest_position gps_df ts
             = Inr (latitude (snd (gps_df ! i)), longitude (snd (gps_df ! i))) \<and>
           (\<forall>j < length gps_df.
              \<bar>synced_time (snd (gps_df ! i)) - ts\<bar> \<le> \<bar>synced_time (snd (gps_df ! j)) - ts\<bar>) \<and>
           (\<forall>j < i.
              \<bar>synced_time (snd (gps_df ! i)) - ts\<bar> < \<bar>synced_time (snd (gps_df ! j)) - ts\<bar>)"
proof -
  define d where "d = map (\<lambda>lr. (fst lr, \<bar>synced_time (snd lr) - ts\<bar>)) gps_df"
  have ss: "sub_series gps_df ts = Inr (map (\<lambda>lr. (fst lr, synced_time (snd lr) - ts)) gps_df)"
    using assms(3) by (rule sub_series_in_range)
  have dd: "map (\<lambda>ld. (fst ld, \<bar>snd ld\<bar>)) (map (\<lambda>lr. (fst lr, synced_time (snd lr) - ts)) gps_df) = d"
    by (simp add: d_def)
  from assms(2) obtain b xs where bx: "d = b # xs" by (cases d) (auto simp: d_def)
  have len: "length d = length gps_df" by (simp add: d_def)
  from idxmin_from_first_min [of b xs] obtain i where i: "i < length d"
    "idxmin_from b xs = fst (d ! i)"
    "\<forall>j < length d. snd (d ! i) \<le> snd (d ! j)"
    "\<forall>j < i. snd (d ! i) < snd (d ! j)"
    unfolding bx by blast
  have nth: "\<And>j. j < length gps_df \<Longrightarrow> d ! j = (fst (gps_df ! j), \<bar>synced_time (snd (gps_df ! j)) - ts\<bar>)"
    by (simp add: d_def)
  have il: "i < length gps_df" using i(1) len by simp
  have "idxmin d = Inr (fst (gps_df ! i))" using i(2) nth [OF il] by (simp add: bx)
  then have "find_closest_position gps_df ts
      = Inr (latitude (snd (gps_df ! i)), longitude (snd (gps_df ! i)))"
    using loc_distinct [OF assms(1) il] unfolding find_closest_position_def ss
    by (simp only: sum.case dd)
  moreover have "\<forall>j < length gps_df.
      \<bar>synced_time (snd (gps_df ! i)) - ts\<bar> \<le> \<bar>synced_time (snd (gps_df ! j)) - ts\<bar>"
    using i(3) nth il len by simp
  moreover have "\<forall>j < i.
      \<bar>synced_time (snd (gps_df ! i)) - ts\<bar> < \<bar>synced_time (snd (gps_df ! j)) - ts\<bar>"
    using i(4) nth il by simp
  ultimately show ?thesis using il by blast
qed

lemma ex_load_gps: "load_gps ex_sort_values ex_gps_csv = ex_gps_df"
  by (simp add: load_gps_def ex_sort_values_def ex_gps_csv_def ex_gps_df_def dropna_gps_def
      enumerate_eq_zip upt_rec)

subsection \<open>C1: the matched sample is the first one closest in time\<close>

text \<open>
  C1. Let the trajectory of a session be loaded with a \<open>sort_values\<close> that returns a
  permutation of its argument, and let it be non-empty. For a fixation timestamp \<open>ts\<close>
  whose difference to every sample fits the int64 nanosecond range,
  \<open>find_closest_position\<close> returns the position of a row \<open>i\<close> of the loaded (sorted) frame
  whose absolute time difference to \<open>ts\<close> is at most that of every row of the frame, and
  strictly less than that of every row before it: the first row, in the order of the
  frame, that attains the minimum. When the difference to some sample lies outside the
  int64 range, no sample is matched: the subtraction raises OverflowError.
\<close>

theorem closest_first_min:
  assumes "\<And>df. mset (sort_values df) = mset df"
    and "load_gps sort_values gps_csv \<noteq> []"
  defines "gps_df \<equiv> load_gps sort_values gps_csv"
  shows "((\<forall>row \<in> set gps_df. \<bar>synced_time (snd row) - ts\<bar> \<le> i8max) \<longrightarrow>
          (\<exists>i < length gps_df.
             find_closest_position gps_df ts
               = Inr (latitude (snd (gps_df ! i)), longitude (snd (gps_df ! i))) \<and>
             (\<forall>j < length gps_df.
                \<bar>synced_time (snd (gps_df ! i)) - ts\<bar> \<le> \<bar>synced_time (snd (gps_df ! j)) - ts\<bar>) \<and>
             (\<forall>j < i.
                \<bar>synced_time (snd (gps_df ! i)) - ts\<bar> < \<bar>synced_time (snd (gps_df ! j)) - ts\<bar>))) \<and>
         ((\<exists>row \<in> set gps_df. i8max < synced_time (snd row) - ts \<or>
                                synced_time (snd row) - ts < - i8max - 1) \<longrightarrow>
          find_closest_position gps_df ts = Inl OverflowError)"
proof (intro conjI impI)
  assume r: "\<forall>row \<in> set gps_df. \<bar>synced_time (snd row) - ts\<bar> \<le> i8max"
  have "distinct (map fst gps_df)"
    unfolding gps_df_def using assms(1) by (rule load_gps_labels_distinct)
  moreover have "gps_df \<noteq> []" using assms(2) by (simp add: gps_df_def)
  ultimately show "\<exists>i < length gps_df.
             find_closest_position gps_df ts
               = Inr (latitude (snd (gps_df ! i)), longitude (snd (gps_df ! i))) \<and>
             (\<forall>j < length gps_df.
                \<bar>synced_time (snd (gps_df ! i)) - ts\<bar> \<le> \<bar>synced_time (snd (gps_df ! j)) - ts\<bar>) \<and>
             (\<forall>j < i.
                \<bar>synced_time (snd (gps_df ! i)) - ts\<bar> < \<bar>synced_time (snd (gps_df ! j)) - ts\<bar>)"
    using r by (rule closest_first_min_frame)
next
  assume "\<exists>row \<in> set gps_df. i8max < synced_time (snd row) - ts \<or>
                                synced_time (snd row) - ts < - i8max - 1"
  then have "\<exists>row \<in> set gps_df. i8max < \<bar>synced_time (snd row) - ts\<bar>"
    by (auto simp: i8max_def intro!: bexI)
  then show "find_closest_position gps_df ts = Inl OverflowError"
    by (rule find_closest_position_overflow)
qed

text \<open>
  The example csv loads to the example frame. At \<open>ts = 9\<close> the second and third row of
  the frame both differ by 1 and the first by 9: the theorem leaves only the second row,
  the first of the two. At \<open>ts = 5 - 2^63\<close> the rows at time 10 are more than \<open>2^63 - 1\<close>
  nanoseconds away.
\<close>

theorem closest_first_min_witness:
  "(\<forall>df. mset (ex_sort_values df) = mset df) \<and>
   load_gps ex_sort_values ex_gps_csv = ex_gps_df \<and> ex_gps_df \<noteq> [] \<and>
   find_closest_position ex_gps_df 9 = Inr (52, 13) \<and>
   find_closest_position ex_gps_df (5 - 2 ^ 63) = Inl OverflowError"
proof -
  have p: "mset (ex_sort_values df) = mset df" for df
    by (simp add: ex_sort_values_def)
  have ne: "ex_gps_df \<noteq> []" by (simp add: ex_gps_df_def)
  then have ne': "load_gps ex_sort_values ex_gps_csv \<noteq> []" by (simp add: ex_load_gps)
  note cf = closest_first_min [of ex_sort_values ex_gps_csv, OF p ne', unfolded ex_load_gps]
  have r: "\<forall>row \<in> set ex_gps_df. \<bar>synced_time (snd row) - 9\<bar> \<le> i8max"
    by (simp add: ex_gps_df_def i8max_def)
  from cf [of 9] r
  obtain i where i: "i < length ex_gps_df"
    "find_closest_position ex_gps_df 9
       = Inr (latitude (snd (ex_gps_df ! i)), longitude (snd (ex_gps_df ! i)))"
    "\<forall>j < length ex_gps_df.
       \<bar>synced_time (snd (ex_gps_df ! i)) - 9\<bar> \<le> \<bar>synced_time (snd (ex_gps_df ! j)) - 9\<bar>"
    "\<forall>j < i.
       \<bar>synced_time (snd (ex_gps_df ! i)) - 9\<bar> < \<bar>synced_time (snd (ex_gps_df ! j)) - 9\<bar>"
    by blast
  from i(1) have "i = 0 \<or> i = 1 \<or> i = 2" by (auto simp: ex_gps_df_def)
  moreover have "i \<noteq> 0"
  proof
    assume i0: "i = 0"
    have "1 < length ex_gps_df" by (simp add: ex_gps_df_def)
    with i(3) have "\<bar>synced_time (snd (ex_gps_df ! i)) - 9\<bar>
      \<le> \<bar>synced_time (snd (ex_gps_df ! 1)) - 9\<bar>" by blast
    with i0 show False by (simp add: ex_gps_df_def)
  qed
  moreover have "i \<noteq> 2"
  proof
    assume i2: "i = 2"
    then have "1 < i" by simp
    with i(4) have "\<bar>synced_time (snd (ex_gps_df ! i)) - 9\<bar>
      < \<bar>synced_time (snd (ex_gps_df ! 1)) - 9\<bar>" by blast
    with i2 show False by (simp add: ex_gps_df_def)
  qed
  ultimately have "i = 1" by blast
  with i(2) have m: "find_closest_position ex_gps_df 9 = Inr (52, 13)"
    by (simp add: ex_gps_df_def)
  have "\<exists>row \<in> set ex_gps_df. i8max < synced_time (snd row) - (5 - 2 ^ 63) \<or>
      synced_time (snd row) - (5 - 2 ^ 63) < - i8max - 1"
    by (simp add: ex_gps_df_def i8max_def)
  with cf [of "5 - 2 ^ 63"]
  have o: "find_closest_position ex_gps_df (5 - 2 ^ 63) = Inl OverflowError" by blast
  from p ne ex_load_gps m o show ?thesis by blast
qed

subsection \<open>The batch loop\<close>

lemma run_pairs_append:
  "run_pairs sv g hc files (xs @ ys) st =
     (case run_pairs sv g hc files xs st of
        Inl e \<Rightarrow> Inl e
      | Inr st' \<Rightarrow> run_pairs sv g hc files ys st')"
  by (induction xs arbitrary: st) (auto split: sum.splits)

lemma process_pair_missing:
  "gps_file (files key) = None \<or> fix_file (files key) = None \<Longrightarrow>
   process_pair sv g hc files key st =
     Inr \<lparr>all_results = all_results st,
          printed = printed st @ [Skipping (fst key) (snd key)]\<rparr>"
  by (auto simp: process_pair_def split: option.splits)

lemma load_fix_rows:
  "row \<in> set (load_fix hc fix_xlsx) \<Longrightarrow> house_nr row \<noteq> 0 \<and> house_nr row \<in> dom hc"
  by (simp add: load_fix_def)



lemma calc_distances_invariant:
  "calc_distances g hc key df rows acc = Inr rs \<Longrightarrow>
   \<forall>row \<in> set rows. house_nr row \<noteq> 0 \<Longrightarrow>
   \<forall>r \<in> set acc. res_house_nr r \<noteq> 0 \<and> res_house_nr r \<in> dom hc \<Longrightarrow>
   \<forall>r \<in> set rs. res_house_nr r \<noteq> 0 \<and> res_house_nr r \<in> dom hc"
proof (induction rows arbitrary: acc)
  case Nil
  then show ?case by simp
next
  case (Cons row rows)
  show ?case
  proof (cases "hc (house_nr row)")
    case None
    then show ?thesis using Cons by simp
  next
    case (Some b)
    obtain tla tlo nm where b: "b = (tla, tlo, nm)" by (cases b)
    from Cons.prems(1) Some b obtain pc where
      pc: "find_closest_position df (start_timestamp_ns row) = Inr pc"
      by (auto split: sum.splits)
    let ?r = "\<lparr>expl = fst key, et = snd key, res_house_nr = house_nr row,
                building_name = nm, fixation_time = start_timestamp_ns row,
                person_position = pc, target_position = (tla, tlo),
                distance_m = g pc (tla, tlo),
                res_frame_nr = frame_nr row, res_session = session row\<rparr>"
    have rec: "calc_distances g hc key df rows (acc @ [?r]) = Inr rs"
      using Cons.prems(1) Some b pc by simp
    have "\<forall>r \<in> set (acc @ [?r]). res_house_nr r \<noteq> 0 \<and> res_house_nr r \<in> dom hc"
      using Cons.prems(2,3) Some by auto
    with Cons.IH [OF rec] Cons.prems(2) show ?thesis by simp
  qed
qed

lemma process_pair_invariant:
  assumes "process_pair sv g hc files key st = Inr st'"
    and "\<forall>r \<in> set (all_results st). res_house_nr r \<noteq> 0 \<and> res_house_nr r \<in> dom hc"
  shows "\<forall>r \<in> set (all_results st'). res_house_nr r \<noteq> 0 \<and> res_house_nr r \<in> dom hc"
proof (cases "gps_file (files key) = None \<or> fix_file (files key) = None")
  case True
  then show ?thesis using assms by (auto simp: process_pair_missing)
next
  case False
  then obtain gps_csv fix_xlsx where f: "gps_file (files key) = Some gps_csv"
    "fix_file (files key) = Some fix_xlsx" by auto
  from assms(1) f obtain rs where
    rs: "calc_distances g hc key (load_gps sv gps_csv) (load_fix hc fix_xlsx) (all_results st) = Inr rs"
    and st': "all_results st' = rs"
    by (auto simp: process_pair_def split: sum.splits)
  have "\<forall>row \<in> set (load_fix hc fix_xlsx). house_nr row \<noteq> 0"
    using load_fix_rows by blast
  from calc_distances_invariant [OF rs this assms(2)] st' show ?thesis by simp
qed

lemma run_pairs_invariant:
  "run_pairs sv g hc files keys st = Inr st' \<Longrightarrow>
   \<forall>r \<in> set (all_results st). res_house_nr r \<noteq> 0 \<and> res_house_nr r \<in> dom hc \<Longrightarrow>
   \<forall>r \<in> set (all_results st'). res_house_nr r \<noteq> 0 \<and> res_house_nr r \<in> dom hc"
proof (induction keys arbitrary: st)
  case Nil
  then show ?case by simp
next
  case (Cons key keys)
  from Cons.prems(1) obtain st1 where
    p: "process_pair sv g hc files key st = Inr st1"
    and r: "run_pairs sv g hc files keys st1 = Inr st'"
    by (auto split: sum.splits)
  from process_pair_invariant [OF p Cons.prems(2)] Cons.IH [OF r] show ?case by blast
qed

subsection \<open>The example session pairs\<close>

lemma ex_load_fix:
  "load_fix ex_house_coords ex_fix_xlsx =
     [\<lparr>start_timestamp_ns = 9, house_nr = 1, frame_nr = Some 40,
       session = Some ''Expl_2_ET_3''\<rparr>]"
  by (simp add: load_fix_def ex_house_coords_def ex_fix_xlsx_def dropna_fix_def)

lemma ex_closest: "find_closest_position ex_gps_df 9 = Inr (52, 13)"
  by (simp add: find_closest_position_def ex_gps_df_def loc_def sub_overflowsafe_def i8max_def)

lemma ex_house_1: "ex_house_coords 1 = Some (52, 13, ''Punkt 1'')"
  by (simp add: ex_house_coords_def)

lemma ex_process_pair_2_3:
  "process_pair ex_sort_values ex_geodesic ex_house_coords ex_files (2, 3) st =
     Inr \<lparr>all_results = all_results st @ [ex_result], printed = printed st @ [Processing 2 3]\<rparr>"
  by (simp add: process_pair_def ex_files_def ex_load_gps ex_load_fix ex_closest
      ex_house_1 ex_geodesic_def ex_result_def)

lemma ex_process_pair_2_2:
  "process_pair ex_sort_values ex_geodesic ex_house_coords ex_files (2, 2) st =
     Inr \<lparr>all_results = all_results st, printed = printed st @ [Skipping 2 2]\<rparr>"
  by (simp add: process_pair_def ex_files_def)


subsection \<open>C7: a pair with a missing file is skipped\<close>

text \<open>
  C7. When the GPS file or the fixation file of a session pair does not exist, the
  iteration for that pair prints the skip message and leaves \<open>all_results\<close> as it was: the
  pair contributes no result. The loop goes on: the batch over \<open>pre @ key # post\<close> is the
  batch over \<open>pre\<close>, then the skip message, then the batch over \<open>post\<close>.
\<close>

theorem missing_pair_skipped:
  assumes "gps_file (files key) = None \<or> fix_file (files key) = None"
  shows "process_pair sv g hc files key st =
           Inr \<lparr>all_results = all_results st,
                printed = printed st @ [Skipping (fst key) (snd key)]\<rparr> \<and>
         run_pairs sv g hc files (pre @ key # post) st =
           (case run_pairs sv g hc files pre st of
              Inl e \<Rightarrow> Inl e
            | Inr st' \<Rightarrow>
                run_pairs sv g hc files post
                  \<lparr>all_results = all_results st',
                   printed = printed st' @ [Skipping (fst key) (snd key)]\<rparr>)"
  using assms
  by (auto simp: run_pairs_append process_pair_missing split: sum.splits)

text \<open>
  Pair (2, 2) of the example has no GPS file; the batch over it and pair (2, 3) logs the
  skip and returns the one result of pair (2, 3).
\<close>

theorem missing_pair_skipped_witness:
  "(gps_file (ex_files (2, 2)) = None \<or> fix_file (ex_files (2, 2)) = None) \<and>
   run_pairs ex_sort_values ex_geodesic ex_house_coords ex_files [(2, 2), (2, 3)] initial_state =
     Inr \<lparr>all_results = [ex_result], printed = [Skipping 2 2, Processing 2 3]\<rparr>"
proof -
  have h: "gps_file (ex_files (2, 2)) = None \<or> fix_file (ex_files (2, 2)) = None"
    by (simp add: ex_files_def)
  have "run_pairs ex_sort_values ex_geodesic ex_house_coords ex_files ([] @ (2, 2) # [(2, 3)])
          initial_state =
        run_pairs ex_sort_values ex_geodesic ex_house_coords ex_files [(2, 3)]
          \<lparr>all_results = [], printed = [Skipping 2 2]\<rparr>"
    using missing_pair_skipped [where files = ex_files and key = "(2, 2)"
        and sv = ex_sort_values and g = ex_geodesic and hc = ex_house_coords
        and st = initial_state and pre = "[]" and post = "[(2, 3)]"] h
    by (simp add: initial_state_def)
  then show ?thesis using h by (simp add: ex_process_pair_2_3)
qed

subsection \<open>C3: an empty trajectory\<close>




subsection \<open>C5: results name registry buildings only\<close>

text \<open>
  C5. Every row of a loaded fixation table has a house number that is not 0 and is a key
  of the registry, and so has every result of a batch that returns, over any list of
  session pairs.
\<close>

theorem results_reference_registry:
  "(\<forall>row \<in> set (load_fix hc fix_xlsx). house_nr row \<noteq> 0 \<and> house_nr row \<in> dom hc) \<and>
   (run_pairs sv g hc files keys initial_state = Inr st \<longrightarrow>
      (\<forall>r \<in> set (all_results st). res_house_nr r \<noteq> 0 \<and> res_house_nr r \<in> dom hc))"
proof (intro conjI impI)
  show "\<forall>row \<in> set (load_fix hc fix_xlsx). house_nr row \<noteq> 0 \<and> house_nr row \<in> dom hc"
    using load_fix_rows by blast
next
  assume "run_pairs sv g hc files keys initial_state = Inr st"
  then show "\<forall>r \<in> set (all_results st). res_house_nr r \<noteq> 0 \<and> res_house_nr r \<in> dom hc"
    by (rule run_pairs_invariant) (simp add: initial_state_def)
qed

text \<open>
  Of the four rows of the example sheet only the one on building 1 survives, and the
  result of the batch names building 1.
\<close>

theorem results_reference_registry_witness:
  "map house_nr (load_fix ex_house_coords ex_fix_xlsx) = [1] \<and>
   run_pairs ex_sort_values ex_geodesic ex_house_coords ex_files [(2, 2), (2, 3)] initial_state
     = Inr \<lparr>all_results = [ex_result], printed = [Skipping 2 2, Processing 2 3]\<rparr> \<and>
   res_house_nr ex_result \<noteq> 0 \<and> res_house_nr ex_result \<in> dom ex_house_coords"
proof -
  let ?st = "\<lparr>all_results = [ex_result], printed = [Skipping 2 2, Processing 2 3]\<rparr>"
  have run: "run_pairs ex_sort_values ex_geodesic ex_house_coords ex_files [(2, 2), (2, 3)]
      initial_state = Inr ?st"
    by (simp add: ex_process_pair_2_2 ex_process_pair_2_3 initial_state_def)
  from results_reference_registry [of ex_house_coords ex_fix_xlsx ex_sort_values ex_geodesic
      ex_files "[(2, 2), (2, 3)]" ?st] run
  have "res_house_nr ex_result \<noteq> 0 \<and> res_house_nr ex_result \<in> dom ex_house_coords"
    by simp
  with run show ?thesis by (simp add: ex_load_fix)
qed

subsection \<open>Rounding to float64\<close>

lemma round_half_even_of_int: "round_half_even (of_int n) = n"
  by (simp add: round_half_even_def)

lemma round_double_binade:
  assumes "2 powr of_int e \<le> \<bar>x\<bar>" and "\<bar>x\<bar> < 2 powr (of_int e + 1)"
  shows "round_double x =
           2 powr (of_int e - 52) * of_int (round_half_even (x / 2 powr (of_int e - 52)))"
proof -
  have pos: "0 < \<bar>x\<bar>" using assms(1) by (smt (verit) powr_gt_zero)
  then have x0: "x \<noteq> 0" by auto
  have "\<lfloor>log 2 \<bar>x\<bar>\<rfloor> = e"
    using assms pos by (simp add: floor_log_eq_powr_iff)
  then show ?thesis using x0 by (simp add: round_double_def Let_def)
qed

lemma round_double_representable:
  assumes "\<bar>m\<bar> < 2 ^ 53"
  shows "round_double (of_int m * 2 powr of_int k) = of_int m * 2 powr of_int k"
proof (cases "m = 0")
  case True
  then show ?thesis by (simp add: round_double_def)
next
  case False
  let ?x = "of_int m * 2 powr of_int k :: real"
  have x0: "?x \<noteq> 0" using False by simp
  define e where "e = \<lfloor>log 2 \<bar>?x\<bar>\<rfloor>"
  have absx: "\<bar>?x\<bar> = \<bar>of_int m\<bar> * 2 powr of_int k" by (simp add: abs_mult)
  have "1 \<le> \<bar>m\<bar>" using False by linarith
  then have m1: "1 \<le> \<bar>real_of_int m\<bar>" by (simp flip: of_int_abs)
  have "log 2 \<bar>?x\<bar> = log 2 \<bar>of_int m\<bar> + of_int k"
    using False by (simp add: absx log_mult)
  moreover have "log 2 \<bar>real_of_int m\<bar> < 53"
  proof -
    have "\<bar>real_of_int m\<bar> < 2 ^ 53" using assms by (simp flip: of_int_abs)
    then have "log 2 \<bar>real_of_int m\<bar> < log 2 (2 ^ 53)"
      using m1 by (subst log_less_cancel_iff) auto
    moreover have "log 2 ((2 :: real) ^ 53) = 53"
      using log_pow_cancel [of 2 53] by simp
    ultimately show ?thesis by simp
  qed
  ultimately have "log 2 \<bar>?x\<bar> < 53 + of_int k" by simp
  then have "of_int e < 53 + real_of_int k" unfolding e_def by linarith
  then have ek: "e \<le> 52 + k" by linarith
  define j where "j = nat (k + 52 - e)"
  have j: "int j = k + 52 - e" using ek by (simp add: j_def)
  have "(2 :: real) powr of_int k / 2 powr (of_int e - 52) = 2 powr (of_int k - (of_int e - 52))"
    by (simp add: powr_diff)
  also have "of_int k - (of_int e - 52) = real j"
    using j by (simp add: algebra_simps)
  also have "(2 :: real) powr real j = 2 ^ j" by (simp add: powr_realpow)
  finally have q: "2 powr of_int k / 2 powr (of_int e - 52) = (2 :: real) ^ j" .
  have "?x / 2 powr (of_int e - 52) = of_int m * (2 powr of_int k / 2 powr (of_int e - 52))"
    by simp
  also have "\<dots> = of_int (m * 2 ^ j)" by (simp add: q)
  finally have "round_half_even (?x / 2 powr (of_int e - 52)) = m * 2 ^ j"
    by (simp only: round_half_even_of_int)
  then have "round_double ?x = 2 powr (of_int e - 52) * of_int (m * 2 ^ j)"
    using x0 by (simp add: round_double_def e_def Let_def)
  also have "\<dots> = of_int m * (2 powr (of_int e - 52) * 2 powr real j)"
    by (simp add: powr_realpow)
  also have "2 powr (of_int e - 52) * 2 powr real j = 2 powr of_int k"
  proof -
    have "real j = real_of_int k + 52 - real_of_int e"
      using j by (metis of_int_of_nat_eq of_int_add of_int_diff of_int_numeral)
    then have "of_int e - 52 + real j = real_of_int k" by simp
    then show ?thesis by (simp add: powr_add [symmetric])
  qed
  finally show ?thesis .
qed

lemma round_double_int: "\<bar>m\<bar> < 2 ^ 53 \<Longrightarrow> round_double (of_int m) = of_int m"
  using round_double_representable [of m 0] by simp

lemma round_double_dyadic:
  "\<bar>m\<bar> < 2 ^ 53 \<Longrightarrow> round_double (of_int m / 2 ^ j) = of_int m / 2 ^ j"
  using round_double_representable [of m "- int j"]
  by (simp add: powr_minus powr_realpow divide_inverse)

lemma round_double_binade_nat:
  assumes "2 ^ 52 \<le> \<bar>x\<bar> * 2 ^ k" and "\<bar>x\<bar> * 2 ^ k < 2 ^ 53"
  shows "round_double x = of_int (round_half_even (x * 2 ^ k)) / 2 ^ k"
proof -
  have p: "2 powr (52 - real k) = 2 ^ 52 / 2 ^ k"
    by (simp add: powr_diff powr_realpow)
  have p1: "2 powr (53 - real k) = 2 ^ 53 / 2 ^ k"
    by (simp add: powr_diff powr_realpow)
  have u: "(2::real) powr (of_int (52 - int k) - 52) = 1 / 2 ^ k"
    by (simp add: powr_minus powr_realpow divide_inverse)
  have a: "2 powr of_int (52 - int k) \<le> \<bar>x\<bar>"
    using assms(1) by (simp add: p pos_divide_le_eq)
  have b: "\<bar>x\<bar> < 2 powr (of_int (52 - int k) + 1)"
    using assms(2) p1 by (simp add: pos_less_divide_eq algebra_simps)
  show ?thesis
    unfolding round_double_binade [OF a b] u by simp
qed

lemma round_double_0: "round_double 0 = 0"
  by (simp add: round_double_def)

lemma round_double_ex:
  "round_double 1 = 1" "round_double 2 = 2" "round_double 4 = 4" "round_double 6 = 6"
  "round_double 8 = 8" "round_double 9 = 9" "round_double 17 = 17"
  "round_double (- 7) = - 7"
  "round_double (1 / 4) = 1 / 4" "round_double (9 / 4) = 9 / 4" "round_double (7 / 4) = 7 / 4"
  "round_double (21 / 8) = 21 / 8" "round_double (- (3 / 8)) = - (3 / 8)"
  "round_double (53 / 8) = 53 / 8"
  using round_double_int [of 1] round_double_int [of 2] round_double_int [of 4]
    round_double_int [of 6] round_double_int [of 8] round_double_int [of 9]
    round_double_int [of 17] round_double_int [of "- 7"]
    round_double_dyadic [of 1 2] round_double_dyadic [of 9 2] round_double_dyadic [of 7 2]
    round_double_dyadic [of 21 3] round_double_dyadic [of "- 3" 3] round_double_dyadic [of 53 3]
  by simp_all

subsection \<open>Quantiles\<close>

lemma outlier_df_Nil: "outlier_df [] = Inl KeyError"
  by (simp add: outlier_df_def distance_m_column_def DataFrame_columns_def)

lemma distance_m_column_Cons:
  "distance_df \<noteq> [] \<Longrightarrow> distance_m_column distance_df = Inr (map distance_m distance_df)"
  by (simp add: distance_m_column_def DataFrame_columns_def)

lemma sort_mset_cong: "mset xs = mset ys \<Longrightarrow> sort xs = sort ys"
  for xs ys :: "real list"
  by (rule properties_for_sort) simp_all

lemma quantile_mset_cong: "mset xs = mset ys \<Longrightarrow> quantile xs q = quantile ys q"
proof -
  assume m: "mset xs = mset ys"
  then have "sort xs = sort ys" by (rule sort_mset_cong)
  moreover have "xs = [] \<longleftrightarrow> ys = []" using m by (metis mset_zero_iff)
  ultimately show ?thesis by (simp add: quantile_def)
qed

lemma quartiles_mset_cong: "mset xs = mset ys \<Longrightarrow> quartiles xs = quartiles ys"
  by (simp add: quartiles_def quantile_mset_cong [of xs ys])

lemma sort_ex: "sort [1, 2, 2, 3, 3, 3, 4, 4, 5, 100 :: real] = [1, 2, 2, 3, 3, 3, 4, 4, 5, 100]"
  by simp

lemma quantile_ex_25: "quantile [1, 2, 2, 3, 3, 3, 4, 4, 5, 100] 0.25 = Some (9 / 4)"
  unfolding quantile_def Let_def sort_ex
  by (simp add: lerp_def fadd_def fsub_def fmul_def round_double_ex)

lemma quantile_ex_75: "quantile [1, 2, 2, 3, 3, 3, 4, 4, 5, 100] 0.75 = Some 4"
  unfolding quantile_def Let_def sort_ex
  by (simp add: lerp_def fadd_def fsub_def fmul_def round_double_ex round_double_0)

lemma quartiles_ex: "quartiles [1, 2, 2, 3, 3, 3, 4, 4, 5, 100] = Some (9 / 4, 4, 7 / 4)"
  unfolding quartiles_def quantile_ex_25 quantile_ex_75
  by (simp add: fsub_def round_double_ex)

lemma is_outlier_ex: "is_outlier (9 / 4, 4, 7 / 4) x \<longleftrightarrow> x < - (3 / 8) \<or> 53 / 8 < x"
  by (simp add: fadd_def fsub_def fmul_def round_double_ex)

lemma map_filter_on_column:
  "map f (filter (\<lambda>r. P (f r)) xs) = filter P (map f xs)"
  by (induction xs) auto

subsection \<open>Coordinate text\<close>

lemma split_comma_no_comma: "CHR '','' \<notin> set f \<Longrightarrow> split_comma f = [f]"
  by (induction f) auto

lemma split_comma_field:
  "CHR '','' \<notin> set f \<Longrightarrow> split_comma (f @ CHR '','' # rest) = f # split_comma rest"
  by (induction f) auto

lemma split_comma_fields:
  "CHR '','' \<notin> set f \<Longrightarrow> \<forall>e \<in> set extras. CHR '','' \<notin> set e \<Longrightarrow>
   split_comma (f @ concat (map (\<lambda>e. CHR '','' # e) extras)) = f # extras"
proof (induction extras arbitrary: f)
  case Nil
  then show ?case by (simp add: split_comma_no_comma)
next
  case (Cons e extras)
  have "split_comma (e @ concat (map (\<lambda>e. CHR '','' # e) extras)) = e # extras"
    using Cons.IH [of e] Cons.prems(2) by simp
  then show ?case using Cons.prems(1) by (simp add: split_comma_field)
qed

lemma those_map_Some:
  "\<forall>f \<in> set fs. pyfloat f \<noteq> None \<Longrightarrow> \<exists>vs. those (map pyfloat fs) = Some vs"
  by (induction fs) auto

lemma unpack_lon_lat_fields:
  assumes "split_comma coords = lon_s # lat_s # extras"
    and "pyfloat lon_s = Some lon" and "pyfloat lat_s = Some lat"
    and "\<forall>e \<in> set extras. pyfloat e \<noteq> None"
  shows "unpack_lon_lat pyfloat coords = Inr (lon, lat)"
proof -
  from those_map_Some [OF assms(4)] obtain vs where "those (map pyfloat extras) = Some vs" ..
  then show ?thesis using assms(1-3) by (simp add: unpack_lon_lat_def)
qed

lemma strip_ex_name: "strip '' Punkt 1'' = ''Punkt 1''"
  by (simp add: strip_def is_space_def whitespace_def)

lemma strip_ex_coords: "strip ''13.0,52.0,0 '' = ''13.0,52.0,0''"
  by (simp add: strip_def is_space_def whitespace_def)

lemma punkt_match_ex: "punkt_match ''Punkt 1'' = Some ''1''"
  by (simp add: punkt_match_def is_space_def whitespace_def is_digit_def)

lemma int_of_digits_ex: "int_of_digits ''1'' = 1"
  by (simp add: int_of_digits_def digit_val_def)

lemma ex_registry: "load_house_coords ex_ET_parse ex_pyfloat ex_namelist = Inr ex_house_coords"
  by (simp add: load_house_coords_def find_kml_def ex_namelist_def endswith_def ex_ET_parse_def
      ex_placemarks_def add_placemark_def strip_ex_name strip_ex_coords punkt_match_ex
      int_of_digits_ex unpack_lon_lat_def ex_pyfloat_def ex_house_coords_def
      strip_def is_space_def is_digit_def whitespace_def punkt_match_def)

subsection \<open>Batches without results\<close>

lemma find_kml_None:
  "\<forall>name \<in> set namelist. \<not> endswith name ''.kml'' \<Longrightarrow> find_kml namelist = None"
  by (simp add: find_kml_def find_None_iff)

lemma load_fix_empty_registry: "load_fix Map.empty fix_xlsx = []"
  by (simp add: load_fix_def)

lemma process_pair_empty_registry:
  "\<exists>p. process_pair sv g Map.empty files key st =
         Inr \<lparr>all_results = all_results st, printed = printed st @ [p]\<rparr>"
  by (cases "gps_file (files key)"; cases "fix_file (files key)")
    (simp_all add: process_pair_def load_fix_empty_registry)

lemma run_pairs_empty_registry:
  "\<exists>st'. run_pairs sv g Map.empty files keys st = Inr st' \<and>
         all_results st' = all_results st \<and>
         length (printed st') = length (printed st) + length keys"
proof (induction keys arbitrary: st)
  case Nil
  show ?case by simp
next
  case (Cons key keys)
  from process_pair_empty_registry [of sv g files key st] obtain p where
    p: "process_pair sv g Map.empty files key st =
          Inr \<lparr>all_results = all_results st, printed = printed st @ [p]\<rparr>" ..
  from Cons.IH [of "\<lparr>all_results = all_results st, printed = printed st @ [p]\<rparr>"]
  show ?case using p by auto
qed

lemma session_keys_eval:
  "session_keys =
     [(1, 1), (1, 2), (1, 3), (2, 1), (2, 2), (2, 3), (3, 1), (3, 2), (3, 3),
      (4, 1), (4, 2), (4, 3), (5, 1), (5, 2), (5, 3)]"
  by (simp add: session_keys_def upt_rec)

lemma run_pairs_all_missing:
  "\<forall>key \<in> set keys. gps_file (files key) = None \<or> fix_file (files key) = None \<Longrightarrow>
   run_pairs sv g hc files keys st =
     Inr \<lparr>all_results = all_results st,
          printed = printed st @ map (\<lambda>key. Skipping (fst key) (snd key)) keys\<rparr>"
proof (induction keys arbitrary: st)
  case Nil
  show ?case by simp
next
  case (Cons key keys)
  then show ?case by (simp add: process_pair_missing)
qed

subsection \<open>The pooled example\<close>

lemma ex_pooled_process_pair:
  "process_pair ex_sort_values ex_geodesic ex_house_coords ex_files_pooled key st =
     Inr \<lparr>all_results = all_results st @ ex_pooled_results key,
          printed = printed st @ [ex_pooled_log key]\<rparr>"
proof (cases "ex_pooled_position key")
  case None
  then show ?thesis
    by (simp add: process_pair_def ex_files_pooled_def ex_pooled_results_def ex_pooled_log_def)
next
  case (Some p)
  let ?row = "\<lparr>latitude = fst p, longitude = snd p, synced_time = 5\<rparr>"
  have l: "load_gps ex_sort_values
      [\<lparr>raw_latitude = Some (fst p), raw_longitude = Some (snd p), raw_synced_time = Some 5\<rparr>]
      = [(0, ?row)]"
    by (simp add: load_gps_def ex_sort_values_def dropna_gps_def)
  have c: "find_closest_position [(0, ?row)] 9 = Inr p"
    by (simp add: find_closest_position_def loc_def sub_overflowsafe_def i8max_def)
  show ?thesis
    using Some
    by (simp add: process_pair_def ex_files_pooled_def ex_pooled_results_def ex_pooled_log_def
        l ex_load_fix c ex_house_1 ex_result_def)
qed

lemma ex_files_pooled_run:
  "run_pairs ex_sort_values ex_geodesic ex_house_coords ex_files_pooled keys st =
     Inr \<lparr>all_results = all_results st @ concat (map ex_pooled_results keys),
          printed = printed st @ map ex_pooled_log keys\<rparr>"
  by (induction keys arbitrary: st) (simp_all add: ex_pooled_process_pair)

lemma ex_pooled_distances:
  "map distance_m (concat (map ex_pooled_results session_keys)) = [0, 2, 100, 4, 8]"
  by (simp add: session_keys_eval ex_pooled_results_def ex_pooled_position_def ex_geodesic_def)

lemma ex_pooled_far:
  "filter (\<lambda>r. distance_m r < - 7 \<or> 17 < distance_m r)
     (concat (map ex_pooled_results session_keys)) =
   [ex_result\<lparr>expl := 3, et := 2, person_position := (52, 113), distance_m := 100\<rparr>]"
  by (simp add: session_keys_eval ex_pooled_results_def ex_pooled_position_def ex_geodesic_def)

lemma sort_ex_pooled: "sort [0, 2, 100, 4, 8 :: real] = [0, 2, 4, 8, 100]"
  by simp

subsection \<open>Rounded bounds\<close>

text \<open>
  The bounds of the outlier test are the rounded ones. On the float64 values nearest to
  0.1, 0.1, 0.1, 1.3 and 3.1 the quartiles are the first and the fourth value, the rounded
  upper bound is 3.0999999999999996, one unit in the last place below the fifth value,
  and the fifth row is selected; the exact value of \<open>Q3 + 1.5 * (Q3 - Q1)\<close> is not below it.
\<close>

lemma ex_boundary_column:
  "map distance_m ex_boundary_df =
     [3602879701896397 / 36028797018963968, 3602879701896397 / 36028797018963968,
      3602879701896397 / 36028797018963968, 5854679515581645 / 4503599627370496,
      6980579422424269 / 2251799813685248]"
  by (simp add: ex_boundary_df_def)

lemma round_double_boundary:
  "round_double (3602879701896397 / 36028797018963968) = 3602879701896397 / 36028797018963968"
  "round_double (5854679515581645 / 4503599627370496) = 5854679515581645 / 4503599627370496"
  "round_double (43234556422756763 / 36028797018963968) = 5404319552844595 / 4503599627370496"
  "round_double (16212958658533785 / 9007199254740992) = 2026619832316723 / 1125899906842624"
  "round_double (- (61248954932238739 / 36028797018963968))
     = - (3828059683264921 / 2251799813685248)"
  "round_double (13961158844848537 / 4503599627370496) = 1745144855606067 / 562949953421312"
proof -
  show "round_double (3602879701896397 / 36028797018963968)
      = 3602879701896397 / 36028797018963968"
    using round_double_dyadic [of 3602879701896397 55] by simp
  show "round_double (5854679515581645 / 4503599627370496)
      = 5854679515581645 / 4503599627370496"
    using round_double_dyadic [of 5854679515581645 52] by simp
  show "round_double (43234556422756763 / 36028797018963968)
      = 5404319552844595 / 4503599627370496"
    by (subst round_double_binade_nat [where k = 52]) (simp_all add: round_half_even_def)
  show "round_double (16212958658533785 / 9007199254740992)
      = 2026619832316723 / 1125899906842624"
    by (subst round_double_binade_nat [where k = 52]) (simp_all add: round_half_even_def)
  show "round_double (- (61248954932238739 / 36028797018963968))
      = - (3828059683264921 / 2251799813685248)"
    by (subst round_double_binade_nat [where k = 52]) (simp_all add: round_half_even_def)
  show "round_double (13961158844848537 / 4503599627370496)
      = 1745144855606067 / 562949953421312"
    by (subst round_double_binade_nat [where k = 51]) (simp_all add: round_half_even_def)
qed

lemma rounded_bounds_decide:
  "outlier_df ex_boundary_df = Inr [ex_result\<lparr>distance_m := 6980579422424269 / 2 ^ 51\<rparr>] \<and>
   \<not> (6980579422424269 / 2 ^ 51 >
        5854679515581645 / 2 ^ 52
          + 1.5 * (5854679515581645 / 2 ^ 52 - 3602879701896397 / 2 ^ 55 :: real))"
proof -
  have ne: "ex_boundary_df \<noteq> []" by (simp add: ex_boundary_df_def)
  have q1: "quantile (map distance_m ex_boundary_df) 0.25
      = Some (3602879701896397 / 36028797018963968)"
    unfolding ex_boundary_column
    by (simp add: quantile_def lerp_def fadd_def fsub_def fmul_def round_double_0
        round_double_boundary)
  have q3: "quantile (map distance_m ex_boundary_df) 0.75
      = Some (5854679515581645 / 4503599627370496)"
    unfolding ex_boundary_column
    by (simp add: quantile_def lerp_def fadd_def fsub_def fmul_def round_double_0
        round_double_boundary)
  have q: "quartiles (map distance_m ex_boundary_df)
      = Some (3602879701896397 / 36028797018963968, 5854679515581645 / 4503599627370496,
              5404319552844595 / 4503599627370496)"
    unfolding quartiles_def q1 q3 by (simp add: fsub_def round_double_boundary)
  have "outlier_df ex_boundary_df
      = Inr (filter (\<lambda>r. is_outlier (3602879701896397 / 36028797018963968,
          5854679515581645 / 4503599627370496, 5404319552844595 / 4503599627370496)
          (distance_m r)) ex_boundary_df)"
    using q by (simp add: outlier_df_def distance_m_column_Cons [OF ne])
  also have "\<dots> = Inr [ex_result\<lparr>distance_m := 6980579422424269 / 2 ^ 51\<rparr>]"
    by (simp add: ex_boundary_df_def fadd_def fsub_def fmul_def round_double_boundary)
  finally show ?thesis by simp
qed

subsection \<open>C2: one pooled threshold\<close>

text \<open>
  C2. Let the registry load and the batch over the 15 session pairs return a non-empty
  \<open>all_results\<close>, and let \<open>s\<close> be the sorted \<open>distance_m\<close> column of the whole of
  \<open>all_results\<close>, the pooled distances of all sessions. Then \<open>Q1\<close>, the 0.25 quantile that
  outliers.py takes of that column, is the 25th percentile of \<open>s\<close> by linear
  interpolation: the value at position \<open>(n - 1) * 0.25\<close> of \<open>s\<close>, interpolated in float64
  between the two neighbouring entries; \<open>Q3\<close> is the same at position \<open>(n - 1) * 0.75\<close>; and
  the outlier frame is exactly the rows of \<open>all_results\<close>, in order, whose distance is
  strictly below \<open>Q1 - 1.5 * IQR\<close> or strictly above \<open>Q3 + 1.5 * IQR\<close> with \<open>IQR = Q3 - Q1\<close>,
  these three computed in float64. There is one pair of bounds, from the pooled column,
  for the rows of every session.
\<close>

theorem outliers_global_threshold:
  assumes "load_house_coords ET_parse pyfloat namelist = Inr hc"
    and "run_pairs sv g hc files session_keys initial_state = Inr st"
    and "all_results st \<noteq> []"
  defines "s \<equiv> sort (map distance_m (all_results st))"
  defines "h1 \<equiv> real (length s - 1) * 0.25" and "h3 \<equiv> real (length s - 1) * 0.75"
  defines "a1 \<equiv> s ! nat \<lfloor>h1\<rfloor>" and "b1 \<equiv> s ! min (nat \<lfloor>h1\<rfloor> + 1) (length s - 1)"
    and "t1 \<equiv> h1 - real (nat \<lfloor>h1\<rfloor>)"
  defines "a3 \<equiv> s ! nat \<lfloor>h3\<rfloor>" and "b3 \<equiv> s ! min (nat \<lfloor>h3\<rfloor> + 1) (length s - 1)"
    and "t3 \<equiv> h3 - real (nat \<lfloor>h3\<rfloor>)"
  defines "Q1 \<equiv> (if 1 / 2 \<le> t1
                 then round_double (b1 - round_double (round_double (b1 - a1) * round_double (1 - t1)))
                 else round_double (a1 + round_double (round_double (b1 - a1) * t1)))"
  defines "Q3 \<equiv> (if 1 / 2 \<le> t3
                 then round_double (b3 - round_double (round_double (b3 - a3) * round_double (1 - t3)))
                 else round_double (a3 + round_double (round_double (b3 - a3) * t3)))"
  defines "IQR \<equiv> round_double (Q3 - Q1)"
  shows "quantile (map distance_m (all_results st)) 0.25 = Some Q1 \<and>
         quantile (map distance_m (all_results st)) 0.75 = Some Q3 \<and>
         outliers_script ET_parse pyfloat sv g namelist files =
           Inr (filter (\<lambda>r. distance_m r < round_double (Q1 - round_double (1.5 * IQR)) \<or>
                             distance_m r > round_double (Q3 + round_double (1.5 * IQR)))
                  (all_results st))"
proof -
  let ?d = "map distance_m (all_results st)"
  have ne: "?d \<noteq> []" using assms(3) by simp
  have q1: "quantile ?d 0.25 = Some Q1"
    using ne unfolding quantile_def Let_def lerp_def fadd_def fsub_def fmul_def
      Q1_def a1_def b1_def t1_def h1_def s_def by simp
  have q3: "quantile ?d 0.75 = Some Q3"
    using ne unfolding quantile_def Let_def lerp_def fadd_def fsub_def fmul_def
      Q3_def a3_def b3_def t3_def h3_def s_def by simp
  have q: "quartiles ?d = Some (Q1, Q3, IQR)"
    unfolding quartiles_def q1 q3 by (simp add: IQR_def fsub_def)
  have "outliers_script ET_parse pyfloat sv g namelist files =
      Inr (filter (\<lambda>r. is_outlier (Q1, Q3, IQR) (distance_m r)) (all_results st))"
    using assms(1-3) q by (simp add: outliers_script_def outlier_df_def distance_m_column_Cons)
  then show ?thesis using q1 q3 by (simp add: fadd_def fsub_def fmul_def)
qed

text \<open>
  In the pooled example the column is 0, 2, 100, 4, 8 over five sessions: \<open>Q1 = 2\<close>,
  \<open>Q3 = 8\<close>, the bounds are \<open>-7\<close> and \<open>17\<close>, and the one row of session (3, 2) is the outlier,
  which it would not be against the quartiles of its own session.
\<close>

theorem outliers_global_threshold_witness:
  "load_house_coords ex_ET_parse ex_pyfloat ex_namelist = Inr ex_house_coords \<and>
   map distance_m (concat (map ex_pooled_results session_keys)) = [0, 2, 100, 4, 8] \<and>
   quantile [0, 2, 100, 4, 8] 0.25 = Some 2 \<and> quantile [0, 2, 100, 4, 8] 0.75 = Some 8 \<and>
   outliers_script ex_ET_parse ex_pyfloat ex_sort_values ex_geodesic ex_namelist ex_files_pooled
     = Inr [ex_result\<lparr>expl := 3, et := 2, person_position := (52, 113), distance_m := 100\<rparr>]"
proof -
  let ?rs = "concat (map ex_pooled_results session_keys)"
  let ?st = "\<lparr>all_results = ?rs, printed = map ex_pooled_log session_keys\<rparr>"
  have run: "run_pairs ex_sort_values ex_geodesic ex_house_coords ex_files_pooled session_keys
      initial_state = Inr ?st"
    unfolding ex_files_pooled_run by (simp add: initial_state_def)
  have d: "map distance_m ?rs = [0, 2, 100, 4, 8]" by (rule ex_pooled_distances)
  have "?rs \<noteq> []"
  proof
    assume "?rs = []"
    then have "map distance_m ?rs = []" by (simp only: list.map)
    with d show False by simp
  qed
  then have ne: "all_results ?st \<noteq> []" by simp
  note t = outliers_global_threshold [OF ex_registry run ne]
  have d': "map distance_m (all_results ?st) = [0, 2, 100, 4, 8]" using d by simp
  have q1: "quantile [0, 2, 100, 4, 8] 0.25 = Some 2"
    using t [THEN conjunct1] unfolding d' sort_ex_pooled
    by (simp add: round_double_ex round_double_0)
  have q3: "quantile [0, 2, 100, 4, 8] 0.75 = Some 8"
    using t [THEN conjunct2, THEN conjunct1] unfolding d' sort_ex_pooled
    by (simp add: round_double_ex round_double_0)
  have "outliers_script ex_ET_parse ex_pyfloat ex_sort_values ex_geodesic ex_namelist
      ex_files_pooled = Inr (filter (\<lambda>r. distance_m r < - 7 \<or> 17 < distance_m r) ?rs)"
    using t [THEN conjunct2, THEN conjunct2] unfolding d' sort_ex_pooled
    by (simp add: round_double_ex round_double_0)
  then show ?thesis using ex_registry d q1 q3 by (simp add: ex_pooled_far)
qed

subsection \<open>C6: the quartile scenario\<close>

text \<open>
  As C6 states it, the pooled distances 1, 2, 2, 3, 3, 3, 4, 4, 5, 100 give \<open>Q1 = 2\<close> and
  \<open>IQR = 2\<close>. \<open>quantile\<close> interpolates linearly at position \<open>9 * 0.25 = 2.25\<close>, between the
  sorted values 2 and 3: \<open>Q1 = 2.25\<close>.
\<close>

theorem scenario_q1_not_2:
  "quantile [1, 2, 2, 3, 3, 3, 4, 4, 5, 100] 0.25 = Some (9 / 4) \<and>
   quantile [1, 2, 2, 3, 3, 3, 4, 4, 5, 100] 0.25 \<noteq> Some 2 \<and>
   quartiles [1, 2, 2, 3, 3, 3, 4, 4, 5, 100] \<noteq> Some (2, 4, 2)"
  unfolding quantile_ex_25 quartiles_ex by simp

lemma mset_singleton_list: "mset xs = {#x#} \<Longrightarrow> xs = [x]"
  by (cases xs) (simp_all add: add_mset_eq_single)

text \<open>
  C6, amended. For a result frame whose \<open>distance_m\<close> column holds the multiset 1, 2, 2,
  3, 3, 3, 4, 4, 5, 100 in any order, the quartiles are \<open>Q1 = 2.25\<close> and \<open>Q3 = 4\<close>,
  \<open>IQR = 1.75\<close>, the bounds are \<open>-0.375\<close> and \<open>6.625\<close> (all exact in float64), and the outlier
  frame holds exactly the row with distance 100.
\<close>

theorem scenario_quartiles:
  assumes "mset (map distance_m distance_df) = mset [1, 2, 2, 3, 3, 3, 4, 4, 5, 100]"
  shows "\<exists>Q1 Q3 IQR out.
           quartiles (map distance_m distance_df) = Some (Q1, Q3, IQR) \<and>
           Q1 = 9 / 4 \<and> Q3 = 4 \<and> IQR = 7 / 4 \<and>
           round_double (Q1 - round_double (1.5 * IQR)) = - (3 / 8) \<and>
           round_double (Q3 + round_double (1.5 * IQR)) = 53 / 8 \<and>
           outlier_df distance_df = Inr out \<and>
           out = filter (\<lambda>r. distance_m r = 100) distance_df \<and>
           map distance_m out = [100]"
proof -
  let ?d = "map distance_m distance_df"
  let ?q = "(9 / 4, 4, 7 / 4) :: real \<times> real \<times> real"
  have ne: "distance_df \<noteq> []" using assms by auto
  have q: "quartiles ?d = Some ?q"
    using quartiles_mset_cong [OF assms] by (simp add: quartiles_ex)
  have out: "outlier_df distance_df = Inr (filter (\<lambda>r. is_outlier ?q (distance_m r)) distance_df)"
    using q by (simp add: outlier_df_def distance_m_column_Cons [OF ne])
  have "set ?d = set [1, 2, 2, 3, 3, 3, 4, 4, 5, 100]"
    using assms by (rule mset_eq_setD)
  then have vals: "\<forall>r \<in> set distance_df. distance_m r \<in> {1, 2, 3, 4, 5, 100}"
    by auto
  have f: "filter (\<lambda>r. is_outlier ?q (distance_m r)) distance_df
      = filter (\<lambda>r. distance_m r = 100) distance_df"
  proof (rule filter_cong [OF refl])
    fix r assume "r \<in> set distance_df"
    with vals have "distance_m r \<in> {1, 2, 3, 4, 5, 100}" by blast
    then show "is_outlier ?q (distance_m r) \<longleftrightarrow> distance_m r = 100"
      unfolding is_outlier_ex by auto
  qed
  have "mset (map distance_m (filter (\<lambda>r. distance_m r = 100) distance_df))
      = filter_mset (\<lambda>x. x = 100) (mset ?d)"
    by (simp add: map_filter_on_column [of distance_m "\<lambda>x. x = 100"])
  also have "\<dots> = {#100#}" unfolding assms by simp
  finally have m: "map distance_m (filter (\<lambda>r. distance_m r = 100) distance_df) = [100]"
    by (rule mset_singleton_list)
  show ?thesis
    by (rule exI [of _ "9 / 4"], rule exI [of _ 4], rule exI [of _ "7 / 4"],
        rule exI [of _ "filter (\<lambda>r. distance_m r = 100) distance_df"])
      (simp add: q out f m round_double_ex del: is_outlier.simps)
qed

text \<open>The scenario on ten copies of the example result, with the distances out of order.\<close>

theorem scenario_quartiles_witness:
  "mset (map distance_m ex_distance_df) = mset [1, 2, 2, 3, 3, 3, 4, 4, 5, 100] \<and>
   map distance_m ex_distance_df = [3, 100, 1, 4, 2, 3, 5, 2, 4, 3] \<and>
   quartiles (map distance_m ex_distance_df) = Some (9 / 4, 4, 7 / 4) \<and>
   outlier_df ex_distance_df = Inr [ex_result\<lparr>distance_m := 100\<rparr>]"
proof -
  have l: "map distance_m ex_distance_df = [3, 100, 1, 4, 2, 3, 5, 2, 4, 3]"
    by (simp add: ex_distance_df_def ex_distances_def)
  have h: "mset (map distance_m ex_distance_df) = mset [1, 2, 2, 3, 3, 3, 4, 4, 5, 100]"
    unfolding l by simp
  from scenario_quartiles [OF h] have
    q: "quartiles (map distance_m ex_distance_df) = Some (9 / 4, 4, 7 / 4)"
    and o: "outlier_df ex_distance_df = Inr (filter (\<lambda>r. distance_m r = 100) ex_distance_df)"
    by auto
  have "filter (\<lambda>r. distance_m r = 100) ex_distance_df = [ex_result\<lparr>distance_m := 100\<rparr>]"
    by (simp add: ex_distance_df_def ex_distances_def)
  with h l q o show ?thesis by simp
qed

subsection \<open>C10: no result at all\<close>

text \<open>
  C10. When the registry loads and the batch over the 15 session pairs returns with an
  empty \<open>all_results\<close>, the outlier step raises KeyError, and so does outliers.py: the
  frame built from the empty list has no \<open>distance_m\<close> column to take a quantile of.
\<close>

theorem empty_results_key_error:
  assumes "load_house_coords ET_parse pyfloat namelist = Inr hc"
    and "run_pairs sv g hc files session_keys initial_state = Inr st"
    and "all_results st = []"
  shows "outlier_df (all_results st) = Inl KeyError \<and>
         outliers_script ET_parse pyfloat sv g namelist files = Inl KeyError"
  using assms by (simp add: outliers_script_def outlier_df_Nil)

text \<open>With no session file at all, every pair is skipped and the script ends in KeyError.\<close>

theorem empty_results_key_error_witness:
  "load_house_coords ex_ET_parse ex_pyfloat ex_namelist = Inr ex_house_coords \<and>
   run_pairs ex_sort_values ex_geodesic ex_house_coords ex_no_files session_keys initial_state
     = Inr \<lparr>all_results = [],
            printed = map (\<lambda>key. Skipping (fst key) (snd key)) session_keys\<rparr> \<and>
   outliers_script ex_ET_parse ex_pyfloat ex_sort_values ex_geodesic ex_namelist ex_no_files
     = Inl KeyError"
proof -
  let ?st = "\<lparr>all_results = [],
              printed = map (\<lambda>key. Skipping (fst key) (snd key)) session_keys\<rparr>"
  have run: "run_pairs ex_sort_values ex_geodesic ex_house_coords ex_no_files session_keys
      initial_state = Inr ?st"
    using run_pairs_all_missing [of session_keys ex_no_files ex_sort_values ex_geodesic
        ex_house_coords initial_state]
    by (simp add: ex_no_files_def initial_state_def)
  from empty_results_key_error [OF ex_registry run] ex_registry run show ?thesis by simp
qed

subsection \<open>C4: an archive without a markup entry\<close>

text \<open>
  As C4 states it, an archive with no entry ending in \<open>.kml\<close> makes the loader fail with an
  archive format error, fatal to the run. The scripts guard the parse with
  \<open>if kml_file:\<close> and raise nothing: on an archive of a png and an xml entry the registry is
  the empty dictionary, and the batch goes on with it, logging each pair as usual.
\<close>

theorem no_kml_no_archive_error:
  "load_house_coords ex_ET_parse ex_pyfloat [''files/icon.png'', ''doc.xml''] = Inr Map.empty \<and>
   run_pairs ex_sort_values ex_geodesic Map.empty ex_files [(2, 2), (2, 3)] initial_state
     = Inr \<lparr>all_results = [], printed = [Skipping 2 2, Processing 2 3]\<rparr>"
  by (simp add: load_house_coords_def find_kml_def endswith_def process_pair_def
      ex_files_def load_fix_empty_registry initial_state_def)

text \<open>
  C4, amended. When no entry of the archive has a name ending in \<open>.kml\<close>, the loader raises
  no error and returns the empty registry. The batch runs with it over every session pair
  of the list, each pair logging one line and none adding a result, since every fixation
  is dropped by the registry filter. outliers.py then ends in KeyError at the quantile of
  the missing \<open>distance_m\<close> column.
\<close>

theorem no_kml_empty_registry:
  assumes "\<forall>name \<in> set namelist. \<not> endswith name ''.kml''"
  shows "load_house_coords ET_parse pyfloat namelist = Inr Map.empty \<and>
         (\<exists>st'. run_pairs sv g Map.empty files keys st = Inr st' \<and>
                all_results st' = all_results st \<and>
                length (printed st') = length (printed st) + length keys) \<and>
         outliers_script ET_parse pyfloat sv g namelist files = Inl KeyError"
proof -
  have reg: "load_house_coords ET_parse pyfloat namelist = Inr Map.empty"
    using find_kml_None [OF assms] by (simp add: load_house_coords_def)
  from run_pairs_empty_registry [of sv g files session_keys initial_state] obtain st' where
    "run_pairs sv g Map.empty files session_keys initial_state = Inr st'"
    "all_results st' = []"
    by (auto simp: initial_state_def)
  then have "outliers_script ET_parse pyfloat sv g namelist files = Inl KeyError"
    using reg by (simp add: outliers_script_def outlier_df_Nil)
  with reg run_pairs_empty_registry [of sv g files keys st] show ?thesis by blast
qed

text \<open>The archive of a png and an xml entry, run with the session files of the pooled example.\<close>

theorem no_kml_empty_registry_witness:
  "\<not> endswith ''files/icon.png'' ''.kml'' \<and> \<not> endswith ''doc.xml'' ''.kml'' \<and>
   load_house_coords ex_ET_parse ex_pyfloat [''files/icon.png'', ''doc.xml''] = Inr Map.empty \<and>
   outliers_script ex_ET_parse ex_pyfloat ex_sort_values ex_geodesic
     [''files/icon.png'', ''doc.xml''] ex_files_pooled = Inl KeyError"
proof -
  have h: "\<forall>name \<in> set [''files/icon.png'', ''doc.xml'']. \<not> endswith name ''.kml''"
    by (simp add: endswith_def)
  from no_kml_empty_registry [OF h, of ex_ET_parse ex_pyfloat ex_sort_values ex_geodesic
      ex_files_pooled "[]" initial_state] h
  show ?thesis by simp
qed

subsection \<open>C9: longitude first in the text, latitude first in the registry\<close>

text \<open>
  C9. For a placemark whose name matches and whose stripped coordinate text is
  \<open>lon,lat\<close> followed by any number of further \<open>,field\<close> parts (such as an altitude), all
  fields free of commas and readable by \<open>float\<close>: the fields of the split are the longitude
  text, the latitude text and the further fields, in this order; the unpacking reads the
  first as \<open>lon\<close> and the second as \<open>lat\<close>; and the registry entry stored under the house id
  is \<open>(lat, lon, name)\<close>, the latitude first.
\<close>

theorem coordinates_swapped:
  assumes "name_elem pm = Some (Some name_raw)" and "coord_elem pm = Some (Some coord_raw)"
    and "punkt_match (strip name_raw) = Some digits"
    and "strip coord_raw = lon_s @ CHR '','' # lat_s @ concat (map (\<lambda>e. CHR '','' # e) extras)"
    and "CHR '','' \<notin> set lon_s" and "CHR '','' \<notin> set lat_s"
    and "\<forall>e \<in> set extras. CHR '','' \<notin> set e"
    and "pyfloat lon_s = Some lon" and "pyfloat lat_s = Some lat"
    and "\<forall>e \<in> set extras. pyfloat e \<noteq> None"
  shows "split_comma (strip coord_raw) = lon_s # lat_s # extras \<and>
         unpack_lon_lat pyfloat (strip coord_raw) = Inr (lon, lat) \<and>
         add_placemark pyfloat pm house_coords =
           Inr (house_coords(int_of_digits digits \<mapsto> (lat, lon, strip name_raw)))"
proof -
  have sp: "split_comma (strip coord_raw) = lon_s # lat_s # extras"
    unfolding assms(4) using assms(5-7)
    by (simp add: split_comma_field split_comma_fields)
  have un: "unpack_lon_lat pyfloat (strip coord_raw) = Inr (lon, lat)"
    using sp assms(8-10) by (rule unpack_lon_lat_fields)
  show ?thesis using sp un assms(1-3) by (simp add: add_placemark_def)
qed

text \<open>
  The placemark named \<open>Punkt 1\<close> with the text \<open>13.0,52.0,0\<close> is stored as latitude 52,
  longitude 13.
\<close>

theorem coordinates_swapped_witness:
  "add_placemark ex_pyfloat
     \<lparr>name_elem = Some (Some '' Punkt 1''), coord_elem = Some (Some ''13.0,52.0,0 '')\<rparr>
     Map.empty = Inr [1 \<mapsto> (52, 13, ''Punkt 1'')]"
proof -
  let ?pm = "\<lparr>name_elem = Some (Some '' Punkt 1''), coord_elem = Some (Some ''13.0,52.0,0 '')\<rparr>"
  have "add_placemark ex_pyfloat ?pm Map.empty =
          Inr (Map.empty(int_of_digits ''1'' \<mapsto> (52, 13, strip '' Punkt 1'')))"
    using coordinates_swapped [where pm = ?pm and name_raw = "'' Punkt 1''"
        and coord_raw = "''13.0,52.0,0 ''" and digits = "''1''" and lon_s = "''13.0''"
        and lat_s = "''52.0''" and extras = "[''0'']" and pyfloat = ex_pyfloat
        and lon = 13 and lat = 52 and house_coords = Map.empty]
    by (simp add: strip_ex_name strip_ex_coords punkt_match_ex ex_pyfloat_def)
  then show ?thesis by (simp add: int_of_digits_ex strip_ex_name)
qed

end
